theory Spec2Isabelle
  imports Complex_Main "HOL-Library.Word" "HOL-Library.AList"
begin

unbundle bit_operations_syntax

section \<open>The event-stream decoder of melee/console.py\<close>

text \<open>
  The development embeds the gameplay path of the class \<open>Console\<close>: the event dispatcher
  \<open>__handle_slippstream_events\<close>, the record decoders \<open>__game_start\<close>, \<open>__pre_frame\<close>,
  \<open>__post_frame\<close>, \<open>__frame_bookend\<close> and \<open>__item_update\<close>, and the driver \<open>step\<close>.

  Conventions.
  \<^item> An exception is a value of type \<open>error\<close>; a method is a function from the console to
    an outcome and the console it leaves behind, since a raised exception does not undo
    the assignments made before it.
  \<^item> \<open>GameState\<close> objects live in a store (\<open>heap\<close>) and are named by references, because
    \<open>__frame_bookend\<close> makes \<open>_prev_gamestate\<close> an alias of the snapshot under construction.
    A \<open>PlayerState\<close> belongs to exactly one \<open>GameState\<close> (it is created inside the decoder
    and never handed to another snapshot), so it is stored by value in its snapshot.
  \<^item> Single-precision fields are read as real numbers. The decoding of the four bytes is a
    parameter (\<open>float32\<close>); infinities and NaN are outside the model.
  \<^item> The sum of a numpy scalar and a Python integer depends on the release of numpy, which
    the console does not ask for: from release 2 on, the sum has the type of the scalar
    and wraps around (\<open>uint8(255) + 1\<close> is 0); before, it is a 64-bit integer
    (\<open>uint8(255) + 1\<close> is 256). The rule in force is the parameter \<open>scalar_wraps\<close>.
  \<^item> The enumerations and tables of \<open>melee.enums\<close>, \<open>melee.stages\<close>, \<open>melee.slippstream\<close> and
    the constructors of \<open>melee.gamestate\<close> are not part of the sources at hand; they are
    parameters, collected in the record \<open>tables\<close>.
\<close>

subsection \<open>Enumerations\<close>

datatype error = TypeError | ValueError | KeyError | IndexError
  | SlippiVersionTooLow nat nat nat

text \<open>Members of \<open>EventType\<close> that the dispatcher names; \<open>OTHER_EVENT\<close> stands for any
  further member of the enumeration, which the dispatcher has no branch for.\<close>

datatype EventType = GECKO_CODES | PAYLOADS | GAME_START | PRE_FRAME | POST_FRAME
  | GAME_END | FRAME_START | ITEM_UPDATE | FRAME_BOOKEND | OTHER_EVENT

datatype Action = UNKNOWN_ANIMATION | ON_HALO_WAIT | ON_HALO_DESCENT | EDGE_CATCHING
  | DASHING | TURNING | NEUTRAL_ATTACK_1 | DAIR | Action_member nat

datatype Character = Character_member nat

datatype Stage = NO_STAGE | Stage_member nat

datatype ProjectileSubtype = UNKNOWN_PROJECTILE | ProjectileSubtype_member nat

datatype Menu = IN_GAME | CHARACTER_SELECT | STAGE_SELECT | MAIN_MENU | SLIPPI_ONLINE_CSS
  | PRESS_START | UNKNOWN_MENU

datatype Button = BUTTON_A | BUTTON_B | BUTTON_X | BUTTON_Y | BUTTON_START | BUTTON_Z
  | BUTTON_R | BUTTON_L | BUTTON_D_LEFT | BUTTON_D_RIGHT | BUTTON_D_DOWN | BUTTON_D_UP

subsection \<open>Snapshots\<close>

record ControllerState =
  main_stick :: "real \<times> real"
  c_stick :: "real \<times> real"
  button :: "Button \<Rightarrow> bool"

text \<open>The attributes \<open>x\<close> and \<open>y\<close> are the fields \<open>p_x\<close> and \<open>p_y\<close>.\<close>

record PlayerState =
  costume :: nat
  cpu_level :: nat
  controller_state :: ControllerState
  p_x :: real
  p_y :: real
  character :: Character
  action :: Action
  facing :: bool
  percent :: int
  shield_strength :: real
  stock :: nat
  action_frame :: int
  hitlag :: bool
  hitstun_frames_left :: int
  on_ground :: bool
  jumps_left :: nat
  invulnerable :: bool
  speed_air_x_self :: real
  speed_y_self :: real
  speed_x_attack :: real
  speed_y_attack :: real
  speed_ground_x_self :: real
  invulnerability_left :: int
  moonwalkwarning :: bool
  off_stage :: bool
  ecb_top :: "real \<times> real"
  ecb_bottom :: "real \<times> real"
  ecb_left :: "real \<times> real"
  ecb_right :: "real \<times> real"
  iasa :: bool

text \<open>The attributes \<open>x\<close> and \<open>y\<close> of a projectile are \<open>proj_x\<close> and \<open>proj_y\<close>.\<close>

record Projectile =
  proj_x :: real
  proj_y :: real
  x_speed :: real
  y_speed :: real
  owner :: int
  subtype :: ProjectileSubtype

text \<open>\<open>player\<close> is a Python dictionary from ports to player states. Its iteration order
  is the order of insertion, which \<open>__frame_bookend\<close> depends on: an association list,
  extended at the end by \<open>AList.update\<close> and changed in place by \<open>AList.map_entry\<close>.\<close>

record GameState =
  menu_state :: Menu
  frame :: int
  stage :: Stage
  player :: "(nat \<times> PlayerState) list"
  projectiles :: "Projectile list"
  distance :: real

subsection \<open>The console\<close>

type_synonym byte = "8 word"
type_synonym ref = nat

text \<open>
  The private attribute \<open>_frame\<close> is \<open>self_frame\<close>, and so on. \<open>eventsize\<close> is the list
  \<open>[0] * 0x100\<close>, only ever indexed by a byte: a function on bytes. \<open>slp_version\<close> holds the
  version triple that the source joins with dots (\<open>None\<close> is the string "unknown").
\<close>

record Console =
  eventsize :: "byte \<Rightarrow> nat"
  connected :: bool
  self_current_stage :: Stage
  self_frame :: int
  slp_version :: "(nat \<times> nat \<times> nat) option"
  self_allow_old_version :: bool
  self_use_manual_bookends :: bool
  self_costumes :: "nat \<rightharpoonup> nat"
  self_cpu_level :: "nat \<rightharpoonup> nat"
  self_prev_gamestate :: ref
  self_temp_gamestate :: "ref option"
  heap :: "ref \<Rightarrow> GameState"
  next_ref :: ref

type_synonym 'a M = "Console \<Rightarrow> (error + 'a) \<times> Console"

definition returnM :: "'a \<Rightarrow> 'a M" where
  "returnM v = (\<lambda>c. (Inr v, c))"

definition raiseM :: "error \<Rightarrow> 'a M" where
  "raiseM e = (\<lambda>c. (Inl e, c))"

definition bindM :: "'a M \<Rightarrow> ('a \<Rightarrow> 'b M) \<Rightarrow> 'b M" where
  "bindM m f = (\<lambda>c. case m c of (Inl e, c') \<Rightarrow> (Inl e, c') | (Inr v, c') \<Rightarrow> f v c')"

definition thenM :: "unit M \<Rightarrow> 'b M \<Rightarrow> 'b M" where
  "thenM m n = bindM m (\<lambda>_. n)"

definition liftE :: "error + 'a \<Rightarrow> 'a M" where
  "liftE r = (\<lambda>c. (r, c))"

definition getM :: "(Console \<Rightarrow> 'a) \<Rightarrow> 'a M" where
  "getM f = (\<lambda>c. (Inr (f c), c))"

definition modifyM :: "(Console \<Rightarrow> Console) \<Rightarrow> unit M" where
  "modifyM f = (\<lambda>c. (Inr (), f c))"

fun seqM :: "unit M list \<Rightarrow> unit M" where
  "seqM [] = returnM ()"
| "seqM (m # ms) = thenM m (seqM ms)"

subsection \<open>External tables\<close>

record tables =
  EventType_of :: "nat \<Rightarrow> EventType option"
  Action_of :: "nat \<Rightarrow> Action option"
  Action_value :: "Action \<Rightarrow> int"
  Character_of :: "nat \<Rightarrow> Character option"
  to_internal_stage :: "nat \<Rightarrow> Stage option"
  ProjectileSubtype_of :: "nat \<Rightarrow> ProjectileSubtype option"
  EDGE_GROUND_POSITION :: "Stage \<rightharpoonup> real"
  zero_indices :: "nat \<Rightarrow> int set"
  float32 :: "byte list \<Rightarrow> real"
  scalar_wraps :: bool
  GameState_init :: GameState
  PlayerState_init :: PlayerState
  Projectile_init :: Projectile
  menu_event :: "byte list \<Rightarrow> ref \<Rightarrow> unit M"

text \<open>
  An enumeration constructor such as \<open>enums.Action(v)\<close> raises \<open>ValueError\<close> when \<open>v\<close>
  is not the value of a member: \<open>Action_of T v = None\<close>. \<open>to_internal_stage\<close> raises it for
  an id it does not map. \<open>EDGE_GROUND_POSITION\<close> is the dictionary of \<open>melee.stages\<close>.
  \<open>menu_event\<close> is the menu decoder \<open>__handle_slippstream_menu_event\<close>, which none of the
  properties below depends on.
\<close>

subsection \<open>Reading fields\<close>

text \<open>\<open>np.ndarray((1,), fmt, buf, off)[0]\<close> raises \<open>TypeError\<close> when the buffer is too small
  for the item at that offset. The formats are big-endian.\<close>

definition be_nat :: "byte list \<Rightarrow> nat" where
  "be_nat bs = foldl (\<lambda>a b. a * 256 + unat b) 0 bs"

definition ndarray_B :: "byte list \<Rightarrow> nat \<Rightarrow> error + nat" where
  "ndarray_B buf off =
     (if off + 1 \<le> length buf then Inr (unat (buf ! off)) else Inl TypeError)"

definition ndarray_H :: "byte list \<Rightarrow> nat \<Rightarrow> error + nat" where
  "ndarray_H buf off =
     (if off + 2 \<le> length buf then Inr (be_nat (take 2 (drop off buf))) else Inl TypeError)"

definition ndarray_i :: "byte list \<Rightarrow> nat \<Rightarrow> error + int" where
  "ndarray_i buf off =
     (if off + 4 \<le> length buf
      then Inr (sint (word_of_nat (be_nat (take 4 (drop off buf))) :: 32 word))
      else Inl TypeError)"

definition ndarray_f :: "tables \<Rightarrow> byte list \<Rightarrow> nat \<Rightarrow> error + real" where
  "ndarray_f T buf off =
     (if off + 4 \<le> length buf then Inr (float32 T (take 4 (drop off buf))) else Inl TypeError)"

text \<open>\<open>int(f)\<close> truncates towards zero.\<close>

definition py_int :: "real \<Rightarrow> int" where
  "py_int r = (if 0 \<le> r then \<lfloor>r\<rfloor> else \<lceil>r\<rceil>)"

text \<open>\<open>v + 1\<close> and \<open>v - 1\<close> for an unsigned numpy scalar \<open>v\<close> of the given width. With
  \<open>scalar_wraps\<close> the result is a scalar of the same width; otherwise it is a 64-bit
  integer, and the only scalar that 1 is subtracted from is a port, which is at least 1
  then.\<close>

definition scalar_add1 :: "tables \<Rightarrow> nat \<Rightarrow> nat \<Rightarrow> nat" where
  "scalar_add1 T bits v = (if scalar_wraps T then (v + 1) mod 2 ^ bits else v + 1)"

definition scalar_sub1 :: "tables \<Rightarrow> nat \<Rightarrow> nat \<Rightarrow> nat" where
  "scalar_sub1 T bits v = (if scalar_wraps T then (v + 2 ^ bits - 1) mod 2 ^ bits else v - 1)"

text \<open>A read inside \<open>try\<close> that falls back to a default on \<open>TypeError\<close>; the reads raise
  nothing else.\<close>

definition except_TypeError :: "error + 'a \<Rightarrow> 'a \<Rightarrow> 'a" where
  "except_TypeError r d = (case r of Inr v \<Rightarrow> v | Inl _ \<Rightarrow> d)"

definition bindE :: "error + 'a \<Rightarrow> ('a \<Rightarrow> error + 'b) \<Rightarrow> error + 'b" where
  "bindE r f = (case r of Inl e \<Rightarrow> Inl e | Inr v \<Rightarrow> f v)"

definition try_read :: "error + 'a \<Rightarrow> ('a \<Rightarrow> 'b) \<Rightarrow> 'b \<Rightarrow> error + 'b" where
  "try_read r f d = (case r of Inr v \<Rightarrow> Inr (f v) | Inl _ \<Rightarrow> Inr d)"

subsection \<open>Assignments to snapshots in the store\<close>

definition set_gamestate :: "ref \<Rightarrow> (GameState \<Rightarrow> GameState) \<Rightarrow> unit M" where
  "set_gamestate g f = modifyM (\<lambda>c. c\<lparr>heap := (heap c)(g := f (heap c g))\<rparr>)"

text \<open>An assignment to an attribute of the player object of a port; the new value may
  depend on the snapshot the player belongs to.\<close>

definition with_playerstate ::
  "ref \<Rightarrow> nat \<Rightarrow> (GameState \<Rightarrow> PlayerState \<Rightarrow> PlayerState) \<Rightarrow> unit M" where
  "with_playerstate g port f =
     set_gamestate g (\<lambda>s. s\<lparr>player := AList.map_entry port (f s) (player s)\<rparr>)"

definition set_playerstate :: "ref \<Rightarrow> nat \<Rightarrow> (PlayerState \<Rightarrow> PlayerState) \<Rightarrow> unit M" where
  "set_playerstate g port f = with_playerstate g port (\<lambda>_. f)"

text \<open>\<open>if controller_port not in gamestate.player: gamestate.player[controller_port] = PlayerState()\<close>\<close>

definition ensure_player :: "tables \<Rightarrow> ref \<Rightarrow> nat \<Rightarrow> unit M" where
  "ensure_player T g port =
     set_gamestate g (\<lambda>s. if map_of (player s) port = None
                          then s\<lparr>player := AList.update port (PlayerState_init T) (player s)\<rparr>
                          else s)"

text \<open>The lookback \<open>self._prev_gamestate.player\<close> at a port.\<close>

definition prev_player :: "nat \<Rightarrow> Console \<Rightarrow> PlayerState option" where
  "prev_player port c = map_of (player (heap c (self_prev_gamestate c))) port"

text \<open>A statement \<open>playerstate.attr = expression\<close> whose right-hand side reads the
  record: the reading may raise, and then the statements before it have taken effect.\<close>

type_synonym assignment = "error + (PlayerState \<Rightarrow> PlayerState)"

definition assign :: "error + 'a \<Rightarrow> ('a \<Rightarrow> PlayerState \<Rightarrow> PlayerState) \<Rightarrow> assignment" where
  "assign r setter = (case r of Inl e \<Rightarrow> Inl e | Inr v \<Rightarrow> Inr (setter v))"

fun assign_all :: "ref \<Rightarrow> nat \<Rightarrow> assignment list \<Rightarrow> unit M" where
  "assign_all g port [] = returnM ()"
| "assign_all g port (a # rest) =
     (case a of
        Inl e \<Rightarrow> raiseM e
      | Inr f \<Rightarrow> thenM (set_playerstate g port f) (assign_all g port rest))"

subsection \<open>Session start\<close>

text \<open>\<open>version.parse(a) < version.parse(b)\<close> on two dotted triples.\<close>

definition version_lt :: "nat \<times> nat \<times> nat \<Rightarrow> nat \<times> nat \<times> nat \<Rightarrow> bool" where
  "version_lt v w =
     (case (v, w) of ((a, b, c), (a', b', c')) \<Rightarrow>
        a < a' \<or> (a = a' \<and> (b < b' \<or> (b = b' \<and> c < c'))))"

definition game_start :: "tables \<Rightarrow> ref \<Rightarrow> byte list \<Rightarrow> unit M" where
  "game_start T gamestate event_bytes =
     thenM (modifyM (\<lambda>c. c\<lparr>self_frame := - 10000\<rparr>))
    (bindM (liftE (ndarray_B event_bytes 0x1)) (\<lambda>major.
     bindM (liftE (ndarray_B event_bytes 0x2)) (\<lambda>minor.
     bindM (liftE (ndarray_B event_bytes 0x3)) (\<lambda>version_num.
     seqM [
       modifyM (\<lambda>c. c\<lparr>slp_version := Some (major, minor, version_num)\<rparr>),
       modifyM (\<lambda>c. c\<lparr>self_use_manual_bookends :=
                        (self_allow_old_version c
                         \<and> version_lt (major, minor, version_num) (3, 0, 0))\<rparr>),
       bindM (getM self_allow_old_version) (\<lambda>allow.
         if major < 3 \<and> \<not> allow then raiseM (SlippiVersionTooLow major minor version_num)
         else returnM ()),
       bindM (liftE (ndarray_H event_bytes 0x13)) (\<lambda>v.
         modifyM (\<lambda>c. c\<lparr>self_current_stage :=
                          (case to_internal_stage T v of Some s \<Rightarrow> s | None \<Rightarrow> NO_STAGE)\<rparr>)),
       seqM (map (\<lambda>i. bindM (liftE (ndarray_B event_bytes (0x68 + 0x24 * i))) (\<lambda>v.
                        modifyM (\<lambda>c. c\<lparr>self_costumes := (self_costumes c)(i \<mapsto> v)\<rparr>)))
                 [0, 1, 2, 3]),
       seqM (map (\<lambda>i. bindM (liftE (ndarray_B event_bytes (0x74 + 0x24 * i))) (\<lambda>v.
                        modifyM (\<lambda>c. c\<lparr>self_cpu_level := (self_cpu_level c)(i \<mapsto> v)\<rparr>)))
                 [0, 1, 2, 3]),
       seqM (map (\<lambda>i. bindM (liftE (ndarray_B event_bytes (0x66 + 0x24 * i))) (\<lambda>v.
                        if v \<noteq> 1
                        then modifyM (\<lambda>c. c\<lparr>self_cpu_level := (self_cpu_level c)(i \<mapsto> 0)\<rparr>)
                        else returnM ()))
                 [0, 1, 2, 3])
     ]))))"

subsection \<open>Pre-frame update\<close>

definition button_masks :: "(Button \<times> nat) list" where
  "button_masks =
     [(BUTTON_A, 0x0100), (BUTTON_B, 0x0200), (BUTTON_X, 0x0400), (BUTTON_Y, 0x0800),
      (BUTTON_START, 0x1000), (BUTTON_Z, 0x0010), (BUTTON_R, 0x0020), (BUTTON_L, 0x0040),
      (BUTTON_D_LEFT, 0x0001), (BUTTON_D_RIGHT, 0x0002), (BUTTON_D_DOWN, 0x0004),
      (BUTTON_D_UP, 0x0008)]"

definition set_button :: "nat \<Rightarrow> Button \<times> nat \<Rightarrow> PlayerState \<Rightarrow> PlayerState" where
  "set_button buttonbits bm p =
     p\<lparr>controller_state := (controller_state p)
         \<lparr>button := (button (controller_state p))(fst bm := (buttonbits AND snd bm \<noteq> 0))\<rparr>\<rparr>"

text \<open>\<open>if self._use_manual_bookends: self._frame = gamestate.frame\<close>\<close>

definition manual_bookend_frame :: "ref \<Rightarrow> unit M" where
  "manual_bookend_frame g =
     bindM (getM self_use_manual_bookends) (\<lambda>m.
       if m then modifyM (\<lambda>c. c\<lparr>self_frame := frame (heap c g)\<rparr>) else returnM ())"

definition pre_frame :: "tables \<Rightarrow> ref \<Rightarrow> byte list \<Rightarrow> unit M" where
  "pre_frame T gamestate event_bytes =
     bindM (liftE (ndarray_B event_bytes 0x5)) (\<lambda>b.
       let controller_port = scalar_add1 T 8 b in
       seqM [
         ensure_player T gamestate controller_port,
         bindM (getM self_costumes) (\<lambda>d.
           case d (scalar_sub1 T 8 controller_port) of
             None \<Rightarrow> raiseM KeyError
           | Some v \<Rightarrow> set_playerstate gamestate controller_port (\<lambda>p. p\<lparr>costume := v\<rparr>)),
         bindM (getM self_cpu_level) (\<lambda>d.
           case d (scalar_sub1 T 8 controller_port) of
             None \<Rightarrow> raiseM KeyError
           | Some v \<Rightarrow> set_playerstate gamestate controller_port (\<lambda>p. p\<lparr>cpu_level := v\<rparr>)),
         bindM (liftE (ndarray_f T event_bytes 0x19)) (\<lambda>r1.
         bindM (liftE (ndarray_f T event_bytes 0x1D)) (\<lambda>r2.
           let main_x = r1 / 2 + 0.5; main_y = r2 / 2 + 0.5 in
           set_playerstate gamestate controller_port
             (\<lambda>p. p\<lparr>controller_state := (controller_state p)\<lparr>main_stick := (main_x, main_y)\<rparr>\<rparr>))),
         bindM (liftE (ndarray_f T event_bytes 0x21)) (\<lambda>r1.
         bindM (liftE (ndarray_f T event_bytes 0x25)) (\<lambda>r2.
           let c_x = r1 / 2 + 0.5; c_y = r2 / 2 + 0.5 in
           set_playerstate gamestate controller_port
             (\<lambda>p. p\<lparr>controller_state := (controller_state p)\<lparr>c_stick := (c_x, c_y)\<rparr>\<rparr>))),
         bindM (liftE (ndarray_H event_bytes 0x31)) (\<lambda>buttonbits.
           set_playerstate gamestate controller_port
             (\<lambda>p. foldl (\<lambda>q bm. set_button buttonbits bm q) p button_masks)),
         manual_bookend_frame gamestate
       ])"

subsection \<open>Post-frame update\<close>

text \<open>The fields of the record, in the order of the source. The fields from \<open>hitlag\<close> on
  are read inside \<open>try\<close> and fall back to a default.\<close>

definition post_frame_fields :: "tables \<Rightarrow> byte list \<Rightarrow> assignment list" where
  "post_frame_fields T event_bytes =
     [assign (ndarray_f T event_bytes 0xa) (\<lambda>v p. p\<lparr>p_x := v\<rparr>),
      assign (ndarray_f T event_bytes 0xe) (\<lambda>v p. p\<lparr>p_y := v\<rparr>),
      assign (bindE (ndarray_B event_bytes 0x7)
                (\<lambda>v. case Character_of T v of None \<Rightarrow> Inl ValueError | Some ch \<Rightarrow> Inr ch))
             (\<lambda>v p. p\<lparr>character := v\<rparr>),
      assign (bindE (ndarray_H event_bytes 0x8)
                (\<lambda>v. Inr (case Action_of T v of None \<Rightarrow> UNKNOWN_ANIMATION | Some a \<Rightarrow> a)))
             (\<lambda>v p. p\<lparr>action := v\<rparr>),
      assign (ndarray_f T event_bytes 0x12) (\<lambda>v p. p\<lparr>facing := (v > 0)\<rparr>),
      assign (ndarray_f T event_bytes 0x16) (\<lambda>v p. p\<lparr>percent := py_int v\<rparr>),
      assign (ndarray_f T event_bytes 0x1A) (\<lambda>v p. p\<lparr>shield_strength := v\<rparr>),
      assign (ndarray_B event_bytes 0x21) (\<lambda>v p. p\<lparr>stock := v\<rparr>),
      assign (ndarray_f T event_bytes 0x22) (\<lambda>v p. p\<lparr>action_frame := py_int v\<rparr>),
      assign (try_read (ndarray_B event_bytes 0x27) (\<lambda>bitflags2. bitflags2 AND 0x20 \<noteq> 0) False)
             (\<lambda>v p. p\<lparr>hitlag := v\<rparr>),
      assign (try_read (ndarray_f T event_bytes 0x2B) py_int 0)
             (\<lambda>v p. p\<lparr>hitstun_frames_left := v\<rparr>),
      assign (try_read (ndarray_B event_bytes 0x2F) (\<lambda>v. \<not> (v \<noteq> 0)) True)
             (\<lambda>v p. p\<lparr>on_ground := v\<rparr>),
      assign (try_read (ndarray_B event_bytes 0x32) (\<lambda>v. v) 1) (\<lambda>v p. p\<lparr>jumps_left := v\<rparr>),
      assign (try_read (ndarray_B event_bytes 0x34) (\<lambda>v. v \<noteq> 0) False)
             (\<lambda>v p. p\<lparr>invulnerable := v\<rparr>),
      assign (try_read (ndarray_f T event_bytes 0x35) (\<lambda>v. v) 0)
             (\<lambda>v p. p\<lparr>speed_air_x_self := v\<rparr>),
      assign (try_read (ndarray_f T event_bytes 0x39) (\<lambda>v. v) 0)
             (\<lambda>v p. p\<lparr>speed_y_self := v\<rparr>),
      assign (try_read (ndarray_f T event_bytes 0x3D) (\<lambda>v. v) 0)
             (\<lambda>v p. p\<lparr>speed_x_attack := v\<rparr>),
      assign (try_read (ndarray_f T event_bytes 0x41) (\<lambda>v. v) 0)
             (\<lambda>v p. p\<lparr>speed_y_attack := v\<rparr>),
      assign (try_read (ndarray_f T event_bytes 0x45) (\<lambda>v. v) 0)
             (\<lambda>v p. p\<lparr>speed_ground_x_self := v\<rparr>)]"

text \<open>"Keep track of a player's invulnerability due to respawn or ledge grab".\<close>

definition post_frame_invulnerability :: "ref \<Rightarrow> nat \<Rightarrow> unit M" where
  "post_frame_invulnerability g port =
     seqM [
       bindM (getM (prev_player port)) (\<lambda>prev.
         case prev of
           Some pp \<Rightarrow> set_playerstate g port
                        (\<lambda>p. p\<lparr>invulnerability_left := max 0 (invulnerability_left pp - 1)\<rparr>)
         | None \<Rightarrow> returnM ()),
       set_playerstate g port
         (\<lambda>p. if action p = ON_HALO_WAIT then p\<lparr>invulnerability_left := 120\<rparr> else p),
       with_playerstate g port
         (\<lambda>s p. if action p = ON_HALO_DESCENT \<and> frame s > 150
                 then p\<lparr>invulnerability_left := 120\<rparr> else p),
       set_playerstate g port
         (\<lambda>p. if action p = EDGE_CATCHING \<and> action_frame p = 1
               then p\<lparr>invulnerability_left := 36\<rparr> else p)
     ]"

text \<open>"The pre-warning occurs when we first start a dash dance." and "Take off the warning
  if the player does an action other than dashing".\<close>

definition post_frame_moonwalkwarning :: "ref \<Rightarrow> nat \<Rightarrow> unit M" where
  "post_frame_moonwalkwarning g port =
     seqM [
       bindM (getM (prev_player port)) (\<lambda>prev.
         case prev of
           Some pp \<Rightarrow> set_playerstate g port
                        (\<lambda>p. if action p = DASHING \<and> action pp \<notin> set [DASHING, TURNING]
                              then p\<lparr>moonwalkwarning := True\<rparr> else p)
         | None \<Rightarrow> returnM ()),
       set_playerstate g port
         (\<lambda>p. if action p \<noteq> DASHING then p\<lparr>moonwalkwarning := False\<rparr> else p)
     ]"

text \<open>The "off_stage" helper. The dictionary is indexed before anything else of the
  condition is evaluated, so a stage without an entry raises \<open>KeyError\<close>, which is caught.\<close>

definition post_frame_off_stage :: "tables \<Rightarrow> ref \<Rightarrow> nat \<Rightarrow> unit M" where
  "post_frame_off_stage T g port =
     with_playerstate g port
       (\<lambda>s p. case EDGE_GROUND_POSITION T (stage s) of
                 None \<Rightarrow> p\<lparr>off_stage := False\<rparr>
               | Some edge \<Rightarrow>
                   if (\<bar>p_x p\<bar> > edge \<or> p_y p < - 6) \<and> \<not> on_ground p
                   then p\<lparr>off_stage := True\<rparr>
                   else p\<lparr>off_stage := False\<rparr>)"

definition post_frame_ecb :: "tables \<Rightarrow> byte list \<Rightarrow> assignment list" where
  "post_frame_ecb T event_bytes =
     [assign (Inr (except_TypeError (ndarray_f T event_bytes 0x49) 0,
                   except_TypeError (ndarray_f T event_bytes 0x4D) 0))
             (\<lambda>v p. p\<lparr>ecb_top := v\<rparr>),
      assign (Inr (except_TypeError (ndarray_f T event_bytes 0x51) 0,
                   except_TypeError (ndarray_f T event_bytes 0x55) 0))
             (\<lambda>v p. p\<lparr>ecb_bottom := v\<rparr>),
      assign (Inr (except_TypeError (ndarray_f T event_bytes 0x59) 0,
                   except_TypeError (ndarray_f T event_bytes 0x5D) 0))
             (\<lambda>v p. p\<lparr>ecb_left := v\<rparr>),
      assign (Inr (except_TypeError (ndarray_f T event_bytes 0x61) 0,
                   except_TypeError (ndarray_f T event_bytes 0x65) 0))
             (\<lambda>v p. p\<lparr>ecb_right := v\<rparr>)]"

definition post_frame :: "tables \<Rightarrow> ref \<Rightarrow> byte list \<Rightarrow> unit M" where
  "post_frame T gamestate event_bytes =
     bindM (getM self_current_stage) (\<lambda>st.
     thenM (set_gamestate gamestate (\<lambda>s. s\<lparr>stage := st\<rparr>))
    (bindM (liftE (ndarray_i event_bytes 0x1)) (\<lambda>fr.
     thenM (set_gamestate gamestate (\<lambda>s. s\<lparr>frame := fr\<rparr>))
    (bindM (liftE (ndarray_B event_bytes 0x5)) (\<lambda>b.
       let controller_port = scalar_add1 T 8 b in
       seqM [
         ensure_player T gamestate controller_port,
         assign_all gamestate controller_port (post_frame_fields T event_bytes),
         post_frame_invulnerability gamestate controller_port,
         post_frame_moonwalkwarning gamestate controller_port,
         post_frame_off_stage T gamestate controller_port,
         assign_all gamestate controller_port (post_frame_ecb T event_bytes),
         manual_bookend_frame gamestate
       ])))))"

subsection \<open>Frame bookend and item update\<close>

text \<open>The loop over \<open>gamestate.player.items()\<close> with its counter \<open>i\<close>; the accumulator is
  \<open>(player_one_x, player_one_y, player_two_x, player_two_y)\<close>.\<close>

fun bookend_loop ::
  "(nat \<times> PlayerState) list \<Rightarrow> nat \<Rightarrow> real \<times> real \<times> real \<times> real \<Rightarrow> real \<times> real \<times> real \<times> real" where
  "bookend_loop [] i acc = acc"
| "bookend_loop ((port, player_state) # rest) i (one_x, one_y, two_x, two_y) =
     (let (one_x, one_y) = (if i = 0 then (p_x player_state, p_y player_state)
                            else (one_x, one_y));
          (two_x, two_y) = (if i = 1 then (p_x player_state, p_y player_state)
                            else (two_x, two_y))
      in bookend_loop rest (i + 1) (one_x, one_y, two_x, two_y))"

definition bookend_distance :: "(nat \<times> PlayerState) list \<Rightarrow> real" where
  "bookend_distance players =
     (case bookend_loop players 0 (0, 0, 0, 0) of
        (player_one_x, player_one_y, player_two_x, player_two_y) \<Rightarrow>
          let xdist = player_one_x - player_two_x;
              ydist = player_one_y - player_two_y
          in sqrt (xdist ^ 2 + ydist ^ 2))"

definition frame_bookend :: "tables \<Rightarrow> ref \<Rightarrow> byte list \<Rightarrow> unit M" where
  "frame_bookend T gamestate event_bytes =
     thenM (modifyM (\<lambda>c. c\<lparr>self_prev_gamestate := gamestate\<rparr>))
           (set_gamestate gamestate (\<lambda>s. s\<lparr>distance := bookend_distance (player s)\<rparr>))"

text \<open>The projectile is a fresh object until it is appended, so a raised exception leaves
  the snapshot as it was.\<close>

definition item_update_projectile :: "tables \<Rightarrow> byte list \<Rightarrow> error + Projectile" where
  "item_update_projectile T event_bytes =
     bindE (ndarray_f T event_bytes 0x14) (\<lambda>vx.
     bindE (ndarray_f T event_bytes 0x18) (\<lambda>vy.
     bindE (ndarray_f T event_bytes 0xc) (\<lambda>vxs.
     bindE (ndarray_f T event_bytes 0x10) (\<lambda>vys.
     bindE (try_read (ndarray_B event_bytes 0x2A)
              (\<lambda>b. let owner = int (scalar_add1 T 8 b) in if owner > 4 then - 1 else owner)
              (- 1)) (\<lambda>vowner.
     bindE (ndarray_H event_bytes 0x5) (\<lambda>v.
       Inr ((Projectile_init T)
              \<lparr>proj_x := vx, proj_y := vy, x_speed := vxs, y_speed := vys, owner := vowner,
               subtype := (case ProjectileSubtype_of T v of
                             None \<Rightarrow> UNKNOWN_PROJECTILE | Some t \<Rightarrow> t)\<rparr>)))))))"

definition item_update :: "tables \<Rightarrow> ref \<Rightarrow> byte list \<Rightarrow> unit M" where
  "item_update T gamestate event_bytes =
     bindM (liftE (item_update_projectile T event_bytes)) (\<lambda>projectile.
       set_gamestate gamestate (\<lambda>s. s\<lparr>projectiles := projectiles s @ [projectile]\<rparr>))"

subsection \<open>The dispatcher\<close>

text \<open>One pass of the \<open>while\<close> loop either goes on with the rest of the buffer or returns
  the frame-completion signal.\<close>

datatype control = Continue "byte list" | Return bool

text \<open>\<open>event_bytes[i]\<close> on a \<open>bytes\<close> object.\<close>

definition bytes_index :: "byte list \<Rightarrow> nat \<Rightarrow> error + nat" where
  "bytes_index buf i = (if i < length buf then Inr (unat (buf ! i)) else Inl IndexError)"

text \<open>The loop \<open>for i in range(0, num_commands)\<close> of the payload descriptor; the second
  argument counts the passes that are left.\<close>

fun payloads_loop :: "tables \<Rightarrow> byte list \<Rightarrow> nat \<Rightarrow> nat \<Rightarrow> unit M" where
  "payloads_loop T event_bytes 0 cursor = returnM ()"
| "payloads_loop T event_bytes (Suc n) cursor =
     bindM (liftE (ndarray_B event_bytes cursor)) (\<lambda>command.
     bindM (liftE (ndarray_H event_bytes (cursor + 0x1))) (\<lambda>command_len.
     thenM (modifyM (\<lambda>c. c\<lparr>eventsize :=
                      (eventsize c)(word_of_nat command := scalar_add1 T 16 command_len)\<rparr>))
           (payloads_loop T event_bytes n (cursor + 3))))"

definition dispatch_event :: "tables \<Rightarrow> ref \<Rightarrow> byte list \<Rightarrow> control M" where
  "dispatch_event T gamestate event_bytes =
     bindM (getM (\<lambda>c. eventsize c (event_bytes ! 0))) (\<lambda>event_size.
       if length event_bytes < event_size then returnM (Return False)
       else
         case EventType_of T (unat (event_bytes ! 0)) of
           None \<Rightarrow> raiseM ValueError
         | Some PAYLOADS \<Rightarrow>
             bindM (liftE (bytes_index event_bytes 1)) (\<lambda>payload_size.
               let num_commands = nat ((int payload_size - 1) div 3) in
               thenM (payloads_loop T event_bytes num_commands 0x2)
                     (returnM (Continue (drop (payload_size + 1) event_bytes))))
         | Some FRAME_START \<Rightarrow> returnM (Continue (drop event_size event_bytes))
         | Some GAME_START \<Rightarrow>
             thenM (game_start T gamestate event_bytes)
                   (returnM (Continue (drop event_size event_bytes)))
         | Some GAME_END \<Rightarrow>
             bindM (getM self_use_manual_bookends) (\<lambda>m. returnM (Return m))
         | Some PRE_FRAME \<Rightarrow>
             thenM (pre_frame T gamestate event_bytes)
                   (returnM (Continue (drop event_size event_bytes)))
         | Some POST_FRAME \<Rightarrow>
             thenM (post_frame T gamestate event_bytes)
                   (returnM (Continue (drop event_size event_bytes)))
         | Some GECKO_CODES \<Rightarrow> returnM (Continue (drop event_size event_bytes))
         | Some FRAME_BOOKEND \<Rightarrow>
             thenM (frame_bookend T gamestate event_bytes)
                   (bindM (getM (\<lambda>c. frame (heap c gamestate) \<le> self_frame c)) (\<lambda>old.
                      if old then returnM (Return False)
                      else thenM (modifyM (\<lambda>c. c\<lparr>self_frame := frame (heap c gamestate)\<rparr>))
                                 (returnM (Return True))))
         | Some ITEM_UPDATE \<Rightarrow>
             thenM (item_update T gamestate event_bytes)
                   (returnM (Continue (drop event_size event_bytes)))
         | Some OTHER_EVENT \<Rightarrow> returnM (Return False))"

text \<open>The loop \<open>while len(event_bytes) > 0\<close>. A record whose table entry is 0 is not
  consumed, so the loop need not end: \<open>None\<close> is the run that never returns.\<close>

partial_function (option) events_loop ::
  "tables \<Rightarrow> ref \<Rightarrow> byte list \<Rightarrow> Console \<Rightarrow> ((error + bool) \<times> Console) option" where
  "events_loop T gamestate event_bytes c =
     (if length event_bytes > 0
      then (case dispatch_event T gamestate event_bytes c of
              (Inl e, c') \<Rightarrow> Some (Inl e, c')
            | (Inr (Return b), c') \<Rightarrow> Some (Inr b, c')
            | (Inr (Continue rest), c') \<Rightarrow> events_loop T gamestate rest c')
      else Some (Inr False, c))"

definition handle_slippstream_events ::
  "tables \<Rightarrow> byte list \<Rightarrow> ref \<Rightarrow> Console \<Rightarrow> ((error + bool) \<times> Console) option" where
  "handle_slippstream_events T event_bytes gamestate c =
     events_loop T gamestate event_bytes
       (snd (set_gamestate gamestate (\<lambda>s. s\<lparr>menu_state := IN_GAME\<rparr>) c))"

subsection \<open>The driver\<close>

text \<open>
  What \<open>self._slippstream.dispatch\<close> hands over, in the order of arrival. The payload of an
  event message is the byte string after the transport's decoding. When the list is
  exhausted the transport has nothing more, and \<open>step\<close> returns \<open>None\<close>. Of a connect
  reply only the flag \<open>connected\<close> is kept; the nickname, the version string and the
  cursor it carries play no part in decoding. Flushing the controllers and the timers of
  \<open>step\<close> are left out for the same reason.
\<close>

datatype message = Connect_reply | Game_event "byte list" | Menu_event "byte list"
  | Frame_end | Other_message

fun Character_value :: "Character \<Rightarrow> nat" where
  "Character_value (Character_member v) = v"

definition fixframeindexing :: "tables \<Rightarrow> ref \<Rightarrow> Console \<Rightarrow> Console" where
  "fixframeindexing T g c =
     c\<lparr>heap := (heap c)(g := (heap c g)\<lparr>player :=
         map (\<lambda>(port, p).
                (port, if Action_value T (action p) \<in> zero_indices T (Character_value (character p))
                       then p\<lparr>action_frame := action_frame p + 1\<rparr> else p))
             (player (heap c g))\<rparr>)\<rparr>"

definition fixiasa :: "tables \<Rightarrow> ref \<Rightarrow> Console \<Rightarrow> Console" where
  "fixiasa T g c =
     c\<lparr>heap := (heap c)(g := (heap c g)\<lparr>player :=
         map (\<lambda>(port, p).
                (port, if Action_value T (action p) < Action_value T NEUTRAL_ATTACK_1
                          \<or> Action_value T (action p) > Action_value T DAIR
                       then p\<lparr>iasa := False\<rparr> else p))
             (player (heap c g))\<rparr>)\<rparr>"

text \<open>The loop \<open>while not frame_ended\<close> of \<open>step\<close>, on the snapshot \<open>self._temp_gamestate\<close>.
  The result is the value of \<open>frame_ended\<close> with the messages not yet taken.\<close>

fun step_loop ::
  "tables \<Rightarrow> ref \<Rightarrow> message list \<Rightarrow> Console
     \<Rightarrow> ((error + bool) \<times> message list \<times> Console) option" where
  "step_loop T g [] c = Some (Inr False, [], c)"
| "step_loop T g (m # ms) c =
     (case m of
        Connect_reply \<Rightarrow> step_loop T g ms (c\<lparr>connected := True\<rparr>)
      | Game_event payload \<Rightarrow>
          if length payload > 0
          then (case handle_slippstream_events T payload g c of
                  None \<Rightarrow> None
                | Some (Inl e, c') \<Rightarrow> Some (Inl e, ms, c')
                | Some (Inr frame_ended, c') \<Rightarrow>
                    if frame_ended then Some (Inr True, ms, c') else step_loop T g ms c')
          else step_loop T g ms c
      | Menu_event payload \<Rightarrow>
          if length payload > 0
          then (case menu_event T payload g c of
                  (Inl e, c') \<Rightarrow> Some (Inl e, ms, c')
                | (Inr _, c') \<Rightarrow> Some (Inr True, ms, c'))
          else step_loop T g ms c
      | Frame_end \<Rightarrow>
          if self_use_manual_bookends c \<and> self_frame c \<noteq> - 10000
          then Some (Inr True, ms, c)
          else step_loop T g ms c
      | Other_message \<Rightarrow> step_loop T g ms c)"

text \<open>\<open>step\<close> returns the reference of the finished snapshot, or \<open>None\<close>.\<close>

definition step ::
  "tables \<Rightarrow> message list \<Rightarrow> Console
     \<Rightarrow> ((error + ref option) \<times> message list \<times> Console) option" where
  "step T msgs c =
     (let c1 = (case self_temp_gamestate c of
                  None \<Rightarrow> c\<lparr>heap := (heap c)(next_ref c := GameState_init T),
                             self_temp_gamestate := Some (next_ref c),
                             next_ref := next_ref c + 1\<rparr>
                | Some _ \<Rightarrow> c);
          g = (case self_temp_gamestate c of None \<Rightarrow> next_ref c | Some r \<Rightarrow> r)
      in case step_loop T g msgs c1 of
           None \<Rightarrow> None
         | Some (Inl e, rest, c2) \<Rightarrow> Some (Inl e, rest, c2)
         | Some (Inr frame_ended, rest, c2) \<Rightarrow>
             if frame_ended
             then Some (Inr (Some g), rest,
                        fixiasa T g (fixframeindexing T g (c2\<lparr>self_temp_gamestate := None\<rparr>)))
             else Some (Inr None, rest, c2))"

text \<open>The console as the constructor leaves it; \<open>_prev_gamestate\<close> is a fresh snapshot.\<close>

definition Console_init :: "tables \<Rightarrow> bool \<Rightarrow> Console" where
  "Console_init T allow_old_version =
     \<lparr>eventsize = (\<lambda>_. 0),
      connected = False,
      self_current_stage = NO_STAGE,
      self_frame = 0,
      slp_version = None,
      self_allow_old_version = allow_old_version,
      self_use_manual_bookends = False,
      self_costumes = [0 \<mapsto> 0, 1 \<mapsto> 0, 2 \<mapsto> 0, 3 \<mapsto> 0],
      self_cpu_level = [0 \<mapsto> 0, 1 \<mapsto> 0, 2 \<mapsto> 0, 3 \<mapsto> 0],
      self_prev_gamestate = 0,
      self_temp_gamestate = None,
      heap = (\<lambda>_. GameState_init T),
      next_ref = 1\<rparr>"

subsection \<open>An instance of the tables\<close>

text \<open>
  The decoder is evaluated on concrete streams with the following instance. Its command
  codes are those of the replay format (\<open>0x35\<close> payload descriptor, \<open>0x36\<close> session start,
  \<open>0x37\<close> and \<open>0x38\<close> pre- and post-frame update, \<open>0x39\<close> session end, \<open>0x3A\<close> frame start,
  \<open>0x3B\<close> item update, \<open>0x3C\<close> frame bookend, \<open>0x10\<close> code list), its action ids those of the
  game, and \<open>ieee_float32\<close> decodes a finite big-endian binary32 number. Scalars wrap
  around, as with numpy 2. One stage has a ground edge, at 85. The constructors start a
  snapshot at frame -10000 without players.
\<close>

definition ieee_float32 :: "byte list \<Rightarrow> real" where
  "ieee_float32 bs =
     (let n = be_nat bs;
          e = (n div 2 ^ 23) mod 256;
          m = n mod 2 ^ 23;
          mag = (if e = 0 then real m / 2 ^ 149
                 else if e = 255 then 0
                 else real (2 ^ 23 + m) * 2 ^ e / 2 ^ 150)
      in if n div 2 ^ 31 = 0 then mag else - mag)"

definition example_EventType_of :: "nat \<Rightarrow> EventType option" where
  "example_EventType_of v =
     (if v = 0x10 then Some GECKO_CODES else if v = 0x35 then Some PAYLOADS
      else if v = 0x36 then Some GAME_START else if v = 0x37 then Some PRE_FRAME
      else if v = 0x38 then Some POST_FRAME else if v = 0x39 then Some GAME_END
      else if v = 0x3A then Some FRAME_START else if v = 0x3B then Some ITEM_UPDATE
      else if v = 0x3C then Some FRAME_BOOKEND else None)"

definition example_Action_of :: "nat \<Rightarrow> Action option" where
  "example_Action_of v =
     (if v = 0x0C then Some ON_HALO_DESCENT else if v = 0x0D then Some ON_HALO_WAIT
      else if v = 0x12 then Some TURNING else if v = 0x14 then Some DASHING
      else if v = 0x2C then Some NEUTRAL_ATTACK_1 else if v = 0x45 then Some DAIR
      else if v = 0xFC then Some EDGE_CATCHING else if v = 0xFFFF then Some UNKNOWN_ANIMATION
      else if v \<le> 0x17E then Some (Action_member v) else None)"

fun example_Action_value :: "Action \<Rightarrow> int" where
  "example_Action_value UNKNOWN_ANIMATION = 0xFFFF"
| "example_Action_value ON_HALO_WAIT = 0x0D"
| "example_Action_value ON_HALO_DESCENT = 0x0C"
| "example_Action_value EDGE_CATCHING = 0xFC"
| "example_Action_value DASHING = 0x14"
| "example_Action_value TURNING = 0x12"
| "example_Action_value NEUTRAL_ATTACK_1 = 0x2C"
| "example_Action_value DAIR = 0x45"
| "example_Action_value (Action_member v) = int v"

definition example_PlayerState :: PlayerState where
  "example_PlayerState =
     \<lparr>costume = 0, cpu_level = 0,
      controller_state = \<lparr>main_stick = (0.5, 0.5), c_stick = (0.5, 0.5), button = (\<lambda>_. False)\<rparr>,
      p_x = 0, p_y = 0, character = Character_member 0xFF, action = UNKNOWN_ANIMATION,
      facing = True, percent = 0, shield_strength = 60, stock = 0, action_frame = 0,
      hitlag = False, hitstun_frames_left = 0, on_ground = True, jumps_left = 0,
      invulnerable = True, speed_air_x_self = 0, speed_y_self = 0, speed_x_attack = 0,
      speed_y_attack = 0, speed_ground_x_self = 0, invulnerability_left = 0,
      moonwalkwarning = False, off_stage = False, ecb_top = (0, 0), ecb_bottom = (0, 0),
      ecb_left = (0, 0), ecb_right = (0, 0), iasa = False\<rparr>"

definition example_GameState :: GameState where
  "example_GameState =
     \<lparr>menu_state = IN_GAME, frame = - 10000, stage = Stage_member 0x19, player = [],
      projectiles = [], distance = 0\<rparr>"

definition example_tables :: tables where
  "example_tables =
     \<lparr>EventType_of = example_EventType_of,
      Action_of = example_Action_of,
      Action_value = example_Action_value,
      Character_of = (\<lambda>v. if v \<le> 0x20 then Some (Character_member v) else None),
      to_internal_stage = (\<lambda>v. if v = 0x20 then Some (Stage_member 0x19) else None),
      ProjectileSubtype_of = (\<lambda>v. if v \<le> 0x30 then Some (ProjectileSubtype_member v) else None),
      EDGE_GROUND_POSITION = [Stage_member 0x19 \<mapsto> 85],
      zero_indices = (\<lambda>_. {}),
      float32 = ieee_float32,
      scalar_wraps = True,
      GameState_init = example_GameState,
      PlayerState_init = example_PlayerState,
      Projectile_init = \<lparr>proj_x = 0, proj_y = 0, x_speed = 0, y_speed = 0, owner = - 1,
                         subtype = UNKNOWN_PROJECTILE\<rparr>,
      menu_event = (\<lambda>event_bytes g. returnM ())\<rparr>"

subsection \<open>The host, and streams to run the decoder on\<close>

text \<open>The host calls \<open>step\<close> a number of times and keeps the snapshots it is handed, each
  as it is when \<open>step\<close> returns it. An exception ends the run.\<close>

fun host ::
  "tables \<Rightarrow> nat \<Rightarrow> message list \<Rightarrow> Console
     \<Rightarrow> ((error + unit) \<times> GameState list \<times> Console) option" where
  "host T 0 msgs c = Some (Inr (), [], c)"
| "host T (Suc n) msgs c =
     (case step T msgs c of
        None \<Rightarrow> None
      | Some (Inl e, rest, c') \<Rightarrow> Some (Inl e, [], c')
      | Some (Inr None, rest, c') \<Rightarrow> host T n rest c'
      | Some (Inr (Some g), rest, c') \<Rightarrow>
          (case host T n rest c' of
             None \<Rightarrow> None
           | Some (r, snapshots, c'') \<Rightarrow> Some (r, heap c' g # snapshots, c'')))"

text \<open>A payload descriptor that declares the session-start record with 225 bytes, the
  post-frame update with 53 and the frame bookend with 9.\<close>

definition ex_payloads :: "byte list" where
  "ex_payloads = [0x35, 0x0A, 0x36, 0x00, 0xE0, 0x38, 0x00, 0x34, 0x3C, 0x00, 0x08]"

text \<open>A session-start record of a given major version, on the stage with external id
  \<open>0x20\<close>.\<close>

definition ex_game_start :: "byte \<Rightarrow> byte list" where
  "ex_game_start major =
     [0x36, major, 0, 0] @ replicate 15 0 @ [0x00, 0x20] @ replicate 204 0"

text \<open>A post-frame update for port 1 (raw port 0): the low byte of the frame index, the
  low byte of the action id, the four bytes of x, of y and of the action-frame counter,
  and the airborne byte. It ends after the byte at offset \<open>0x34\<close>.\<close>

definition ex_post_frame ::
  "byte \<Rightarrow> byte \<Rightarrow> byte list \<Rightarrow> byte list \<Rightarrow> byte list \<Rightarrow> byte \<Rightarrow> byte list" where
  "ex_post_frame fr act xs ys af air =
     [0x38, 0, 0, 0, fr, 0, 0, 0x02, 0x00, act] @ xs @ ys
     @ [0x3F, 0x80, 0, 0,  0, 0, 0, 0,  0x42, 0x70, 0, 0,  0, 0, 0,  4] @ af
     @ [0, 0, 0, 0, 0,  0, 0, 0, 0,  air,  0, 0,  1,  0,  0]"

definition ex_bookend :: "byte \<Rightarrow> byte list" where
  "ex_bookend fr = [0x3C, 0, 0, 0, fr, 0, 0, 0, fr]"

text \<open>An item update whose owner byte, at offset \<open>0x2A\<close>, is given.\<close>

definition ex_item_update :: "byte \<Rightarrow> byte list" where
  "ex_item_update raw_owner = 0x3B # replicate 41 0 @ [raw_owner]"

text \<open>The console after the payload descriptor \<open>ex_payloads\<close>, on the stage with a ground
  edge.\<close>

definition ex_console :: Console where
  "ex_console =
     (Console_init example_tables False)
       \<lparr>eventsize := (\<lambda>_. 0)(0x36 := 225, 0x38 := 53, 0x3C := 9),
        self_current_stage := Stage_member 0x19\<rparr>"

text \<open>A console whose previous snapshot (reference 0) holds port 1 with 50 frames of
  invulnerability left, and one whose snapshot under construction (reference 1) holds
  port 1 at the position (3, 4).\<close>

definition ex_console_prev :: Console where
  "ex_console_prev =
     ex_console\<lparr>heap := (heap ex_console)
       (0 := example_GameState
          \<lparr>player := [(1, example_PlayerState\<lparr>invulnerability_left := 50\<rparr>)]\<rparr>)\<rparr>"

definition ex_console_one_player :: Console where
  "ex_console_one_player =
     ex_console\<lparr>heap := (heap ex_console)
       (1 := example_GameState\<lparr>player := [(1, example_PlayerState\<lparr>p_x := 3, p_y := 4\<rparr>)]\<rparr>)\<rparr>"

subsection \<open>Notions for the proofs\<close>

text \<open>The player of a port in the snapshot behind a reference, if the port is there.\<close>

definition player_at :: "Console \<Rightarrow> ref \<Rightarrow> nat \<Rightarrow> PlayerState option" where
  "player_at c g port = map_of (player (heap c g)) port"

text \<open>The console after \<open>set_gamestate\<close> and after \<open>with_playerstate\<close>.\<close>

definition upd_gamestate :: "ref \<Rightarrow> (GameState \<Rightarrow> GameState) \<Rightarrow> Console \<Rightarrow> Console" where
  "upd_gamestate g f c = c\<lparr>heap := (heap c)(g := f (heap c g))\<rparr>"

definition upd_player ::
  "ref \<Rightarrow> nat \<Rightarrow> (GameState \<Rightarrow> PlayerState \<Rightarrow> PlayerState) \<Rightarrow> Console \<Rightarrow> Console" where
  "upd_player g port f c =
     upd_gamestate g (\<lambda>s. s\<lparr>player := AList.map_entry port (f s) (player s)\<rparr>) c"

text \<open>What a list of assignments does to the player before the first one that raises,
  and the outcome of the list.\<close>

fun apply_all :: "assignment list \<Rightarrow> PlayerState \<Rightarrow> PlayerState" where
  "apply_all [] ps = ps"
| "apply_all (Inl e # rest) ps = ps"
| "apply_all (Inr f # rest) ps = apply_all rest (f ps)"

fun assign_outcome :: "assignment list \<Rightarrow> error + unit" where
  "assign_outcome [] = Inr ()"
| "assign_outcome (Inl e # rest) = Inl e"
| "assign_outcome (Inr f # rest) = assign_outcome rest"

text \<open>An action leaves an observation of the console as it was, whatever its outcome.\<close>

definition keeps :: "(Console \<Rightarrow> 'a) \<Rightarrow> 'b M \<Rightarrow> bool" where
  "keeps obs m \<longleftrightarrow> (\<forall>c. obs (snd (m c)) = obs c)"

text \<open>Whether legacy bookends are in use and, when they are not, the index of the last
  frame delivered: what every decoder but the session start and the bookend preserves.\<close>

definition delivery :: "Console \<Rightarrow> bool \<times> int option" where
  "delivery c =
     (self_use_manual_bookends c,
      if self_use_manual_bookends c then None else Some (self_frame c))"

text \<open>
  Whether the loop of the dispatcher, started on a buffer, comes to dispatch a
  session-start record: either it calls \<open>__game_start\<close> for the record at the cursor, or
  the pass at the cursor goes on with the rest of the buffer, and the loop comes to
  dispatch one from there. A byte with the value of the command that the cursor never
  stops at (inside another record, or after the record that ends the delivery) does not
  count.
\<close>

inductive session_start_dispatched :: "tables \<Rightarrow> ref \<Rightarrow> byte list \<Rightarrow> Console \<Rightarrow> bool"
  for T :: tables and gamestate :: ref where
  at_cursor:
    "length event_bytes > 0 \<Longrightarrow> \<not> length event_bytes < eventsize c (event_bytes ! 0)
     \<Longrightarrow> EventType_of T (unat (event_bytes ! 0)) = Some GAME_START
     \<Longrightarrow> session_start_dispatched T gamestate event_bytes c"
| further_on:
    "length event_bytes > 0 \<Longrightarrow> dispatch_event T gamestate event_bytes c = (Inr (Continue rest), c')
     \<Longrightarrow> session_start_dispatched T gamestate rest c'
     \<Longrightarrow> session_start_dispatched T gamestate event_bytes c"

code_pred (modes: i \<Rightarrow> i \<Rightarrow> i \<Rightarrow> i \<Rightarrow> bool) session_start_dispatched .

text \<open>The same for a call of \<open>__handle_slippstream_events\<close>, for the loop of \<open>step\<close> on the
  messages it takes (\<open>step_loop\<close> on a single message gives the console that the loop goes
  on with, if it goes on), for a call of \<open>step\<close>, and for the calls of the host.\<close>

definition session_start_in_events :: "tables \<Rightarrow> byte list \<Rightarrow> ref \<Rightarrow> Console \<Rightarrow> bool" where
  "session_start_in_events T event_bytes gamestate c =
     session_start_dispatched T gamestate event_bytes
       (snd (set_gamestate gamestate (\<lambda>s. s\<lparr>menu_state := IN_GAME\<rparr>) c))"

fun session_start_in_loop :: "tables \<Rightarrow> ref \<Rightarrow> message list \<Rightarrow> Console \<Rightarrow> bool" where
  "session_start_in_loop T g [] c = False"
| "session_start_in_loop T g (m # ms) c =
     ((case m of
         Game_event payload \<Rightarrow> length payload > 0 \<and> session_start_in_events T payload g c
       | _ \<Rightarrow> False)
      \<or> (case step_loop T g [m] c of
            Some (Inr False, _, c') \<Rightarrow> session_start_in_loop T g ms c'
          | _ \<Rightarrow> False))"

definition session_start_in_step :: "tables \<Rightarrow> message list \<Rightarrow> Console \<Rightarrow> bool" where
  "session_start_in_step T msgs c =
     (let c1 = (case self_temp_gamestate c of
                  None \<Rightarrow> c\<lparr>heap := (heap c)(next_ref c := GameState_init T),
                             self_temp_gamestate := Some (next_ref c),
                             next_ref := next_ref c + 1\<rparr>
                | Some _ \<Rightarrow> c);
          g = (case self_temp_gamestate c of None \<Rightarrow> next_ref c | Some r \<Rightarrow> r)
      in session_start_in_loop T g msgs c1)"

fun session_start_in_host :: "tables \<Rightarrow> nat \<Rightarrow> message list \<Rightarrow> Console \<Rightarrow> bool" where
  "session_start_in_host T 0 msgs c = False"
| "session_start_in_host T (Suc n) msgs c =
     (session_start_in_step T msgs c
      \<or> (case step T msgs c of
            Some (Inr _, rest, c') \<Rightarrow> session_start_in_host T n rest c'
          | _ \<Rightarrow> False))"

text \<open>Messages without a menu delivery. A menu delivery hands the snapshot under
  construction to the caller as it is, whatever its frame index.\<close>

definition gameplay :: "message list \<Rightarrow> bool" where
  "gameplay msgs \<longleftrightarrow>
     (\<forall>m \<in> set msgs. case m of Menu_event payload \<Rightarrow> payload = [] | _ \<Rightarrow> True)"

section \<open>Lemmas\<close>

subsection \<open>Evaluation on concrete streams\<close>

text \<open>The equations that the simplifier runs the decoder with. The loop of the
  dispatcher is unfolded only at a buffer whose first byte is known, and a case
  distinction is entered only once its subject is evaluated.\<close>

lemmas M_defs = returnM_def raiseM_def bindM_def thenM_def liftE_def getM_def modifyM_def

lemmas run_defs = dispatch_event_def game_start_def pre_frame_def post_frame_def
  frame_bookend_def item_update_def post_frame_fields_def post_frame_ecb_def
  post_frame_invulnerability_def post_frame_moonwalkwarning_def post_frame_off_stage_def
  manual_bookend_frame_def set_gamestate_def with_playerstate_def set_playerstate_def
  ensure_player_def prev_player_def assign_def try_read_def except_TypeError_def bindE_def
  ndarray_B_def ndarray_H_def ndarray_i_def ndarray_f_def be_nat_def bytes_index_def
  bookend_distance_def handle_slippstream_events_def version_lt_def py_int_def ieee_float32_def
  scalar_add1_def scalar_sub1_def

lemma payloads_loop_numeral:
  "payloads_loop T event_bytes (numeral k) cursor =
     bindM (liftE (ndarray_B event_bytes cursor)) (\<lambda>command.
     bindM (liftE (ndarray_H event_bytes (cursor + 0x1))) (\<lambda>command_len.
     thenM (modifyM (\<lambda>c. c\<lparr>eventsize :=
                      (eventsize c)(word_of_nat command := scalar_add1 T 16 command_len)\<rparr>))
           (payloads_loop T event_bytes (pred_numeral k) (cursor + 3))))"
  by (simp add: numeral_eq_Suc)

lemma events_loop_Nil: "events_loop T g [] c = Some (Inr False, c)"
  by (subst events_loop.simps) simp

lemma events_loop_Cons:
  "events_loop T g (b # bs) c =
     (case dispatch_event T g (b # bs) c of
        (Inl e, c') \<Rightarrow> Some (Inl e, c')
      | (Inr (Return r), c') \<Rightarrow> Some (Inr r, c')
      | (Inr (Continue rest), c') \<Rightarrow> events_loop T g rest c')"
  by (subst events_loop.simps) simp

lemmas loop_simps = events_loop_Nil events_loop_Cons

lemma example_tables_sel:
  "EventType_of example_tables = example_EventType_of"
  "Action_of example_tables = example_Action_of"
  "Action_value example_tables = example_Action_value"
  "Character_of example_tables = (\<lambda>v. if v \<le> 0x20 then Some (Character_member v) else None)"
  "to_internal_stage example_tables = (\<lambda>v. if v = 0x20 then Some (Stage_member 0x19) else None)"
  "ProjectileSubtype_of example_tables = (\<lambda>v. if v \<le> 0x30 then Some (ProjectileSubtype_member v) else None)"
  "EDGE_GROUND_POSITION example_tables = [Stage_member 0x19 \<mapsto> 85]"
  "zero_indices example_tables = (\<lambda>_. {})"
  "float32 example_tables = ieee_float32"
  "scalar_wraps example_tables = True"
  "GameState_init example_tables = example_GameState"
  "PlayerState_init example_tables = example_PlayerState"
  "menu_event example_tables = (\<lambda>event_bytes g. returnM ())"
  by (simp_all add: example_tables_def)

lemmas ex_defs = ex_payloads_def ex_game_start_def ex_post_frame_def ex_bookend_def
  ex_item_update_def
  example_tables_sel example_EventType_of_def example_Action_of_def example_GameState_def
  example_PlayerState_def Console_init_def ex_console_def

lemmas host_defs = step_def fixiasa_def fixframeindexing_def

lemmas eval_defs = ex_defs run_defs M_defs loop_simps payloads_loop_numeral host_defs
  nth_append player_at_def ex_console_prev_def ex_console_one_player_def

lemmas weak_congs = option.case_cong_weak prod.case_cong_weak sum.case_cong_weak
  control.case_cong_weak message.case_cong_weak EventType.case_cong_weak list.case_cong_weak

subsection \<open>The state and exception monad\<close>

text \<open>Running an action on a console.\<close>

lemma bindM_Inr: "fst (m c) = Inr v \<Longrightarrow> bindM m k c = k v (snd (m c))"
  by (cases "m c") (simp add: bindM_def)

lemma bindM_Inl: "fst (m c) = Inl e \<Longrightarrow> bindM m k c = (Inl e, snd (m c))"
  by (cases "m c") (simp add: bindM_def)

lemma thenM_Inr: "fst (m c) = Inr v \<Longrightarrow> thenM m n c = n (snd (m c))"
  by (simp add: thenM_def bindM_Inr)

lemma modifyM_run: "modifyM f c = (Inr (), f c)"
  by (simp add: modifyM_def)

lemma getM_run: "getM f c = (Inr (f c), c)"
  by (simp add: getM_def)

lemma returnM_run: "returnM v c = (Inr v, c)"
  by (simp add: returnM_def)

lemma raiseM_run: "raiseM e c = (Inl e, c)"
  by (simp add: raiseM_def)

lemma liftE_run: "liftE r c = (r, c)"
  by (simp add: liftE_def)

lemma bindM_getM: "bindM (getM f) k c = k (f c) c"
  by (simp add: bindM_def getM_def)

lemma bindM_liftE_Inr: "bindM (liftE (Inr v)) k c = k v c"
  by (simp add: bindM_def liftE_def)

lemma bindM_liftE_Inl: "bindM (liftE (Inl e)) k c = (Inl e, c)"
  by (simp add: bindM_def liftE_def)

lemma thenM_modifyM: "thenM (modifyM f) n c = n (f c)"
  by (simp add: thenM_def bindM_def modifyM_def)

lemma thenM_returnM: "thenM (returnM v) n c = n c"
  by (simp add: thenM_def bindM_def returnM_def)

lemma thenM_run:
  "thenM m n c = (case m c of (Inl e, c') \<Rightarrow> (Inl e, c') | (Inr v, c') \<Rightarrow> n c')"
  by (simp add: thenM_def bindM_def)

lemma bindM_run:
  "bindM m k c = (case m c of (Inl e, c') \<Rightarrow> (Inl e, c') | (Inr v, c') \<Rightarrow> k v c')"
  by (simp add: bindM_def)

lemmas M_run = thenM_run bindM_run modifyM_run getM_run returnM_run raiseM_run liftE_run bindM_getM
  bindM_liftE_Inr bindM_liftE_Inl thenM_modifyM thenM_returnM

subsection \<open>The store\<close>

text \<open>Assignments to a snapshot or to a player are updates of the console; a list of
  assignments updates the player once, by all the assignments before the first that
  raises.\<close>

lemma set_gamestate_run: "set_gamestate g f = modifyM (upd_gamestate g f)"
  by (simp add: set_gamestate_def upd_gamestate_def[abs_def])

lemma with_playerstate_run: "with_playerstate g p f = modifyM (upd_player g p f)"
  by (simp add: with_playerstate_def upd_player_def[abs_def] set_gamestate_run)

lemma set_playerstate_run: "set_playerstate g p f = modifyM (upd_player g p (\<lambda>_. f))"
  by (simp add: set_playerstate_def with_playerstate_run)

lemma upd_gamestate_sel [simp]:
  "eventsize (upd_gamestate g f c) = eventsize c"
  "self_frame (upd_gamestate g f c) = self_frame c"
  "self_use_manual_bookends (upd_gamestate g f c) = self_use_manual_bookends c"
  "self_allow_old_version (upd_gamestate g f c) = self_allow_old_version c"
  "self_prev_gamestate (upd_gamestate g f c) = self_prev_gamestate c"
  "self_temp_gamestate (upd_gamestate g f c) = self_temp_gamestate c"
  "self_current_stage (upd_gamestate g f c) = self_current_stage c"
  "next_ref (upd_gamestate g f c) = next_ref c"
  "heap (upd_gamestate g f c) r = (if r = g then f (heap c g) else heap c r)"
  by (simp_all add: upd_gamestate_def)

lemma upd_player_sel [simp]:
  "eventsize (upd_player g p f c) = eventsize c"
  "self_frame (upd_player g p f c) = self_frame c"
  "self_use_manual_bookends (upd_player g p f c) = self_use_manual_bookends c"
  "self_allow_old_version (upd_player g p f c) = self_allow_old_version c"
  "self_prev_gamestate (upd_player g p f c) = self_prev_gamestate c"
  "self_temp_gamestate (upd_player g p f c) = self_temp_gamestate c"
  "self_current_stage (upd_player g p f c) = self_current_stage c"
  "next_ref (upd_player g p f c) = next_ref c"
  "frame (heap (upd_player g p f c) r) = frame (heap c r)"
  "stage (heap (upd_player g p f c) r) = stage (heap c r)"
  "projectiles (heap (upd_player g p f c) r) = projectiles (heap c r)"
  by (simp_all add: upd_player_def)

lemma player_at_upd_player [simp]:
  "player_at (upd_player g p f c) r q =
     (if r = g \<and> q = p then map_option (f (heap c g)) (player_at c g p) else player_at c r q)"
  by (auto simp: player_at_def upd_player_def map_of_map_entry split: option.splits)

lemma player_at_upd_gamestate [simp]:
  "player_at (upd_gamestate g f c) r q =
     (if r = g then map_of (player (f (heap c g))) q else player_at c r q)"
  by (simp add: player_at_def)

lemma prev_player_eq: "prev_player p c = player_at c (self_prev_gamestate c) p"
  by (simp add: prev_player_def player_at_def)

lemma map_entry_comp:
  "AList.map_entry k f2 (AList.map_entry k f1 xs) = AList.map_entry k (\<lambda>v. f2 (f1 v)) xs"
  by (induct xs) auto

lemma map_entry_ident: "AList.map_entry k (\<lambda>v. v) xs = xs"
  by (induct xs) auto

lemma upd_player_ident: "upd_player g p (\<lambda>_ ps. ps) c = c"
  by (simp add: upd_player_def upd_gamestate_def map_entry_ident)

lemma upd_player_comp:
  "upd_player g p (\<lambda>_. f2) (upd_player g p (\<lambda>_. f1) c) = upd_player g p (\<lambda>_ ps. f2 (f1 ps)) c"
  by (simp add: upd_player_def upd_gamestate_def map_entry_comp)

lemma assign_all_eq:
  "assign_all g p as c = (assign_outcome as, upd_player g p (\<lambda>_. apply_all as) c)"
proof (induction as arbitrary: c)
  case Nil
  show ?case by (simp add: returnM_run upd_player_ident)
next
  case (Cons a as)
  show ?case
  proof (cases a)
    case (Inl e)
    then show ?thesis by (simp add: raiseM_run upd_player_ident)
  next
    case (Inr f)
    then show ?thesis
      by (simp add: set_playerstate_run thenM_modifyM Cons.IH upd_player_comp)
  qed
qed

lemma apply_all_keeps:
  "(\<And>f ps. Inr f \<in> set as \<Longrightarrow> Q (f ps) = Q ps) \<Longrightarrow> Q (apply_all as ps) = Q ps"
proof (induction as arbitrary: ps)
  case Nil
  then show ?case by simp
next
  case (Cons a as)
  then show ?case by (cases a) auto
qed

lemma assign_eq_Inr: "(Inr f = assign r s) \<longleftrightarrow> (\<exists>v. r = Inr v \<and> f = s v)"
  by (cases r) (auto simp: assign_def)

lemma ndarray_B_ok: "off + 1 \<le> length bs \<Longrightarrow> ndarray_B bs off = Inr (unat (bs ! off))"
  by (simp add: ndarray_B_def)

lemma ndarray_H_ok:
  "off + 2 \<le> length bs \<Longrightarrow> ndarray_H bs off = Inr (be_nat (take 2 (drop off bs)))"
  by (simp add: ndarray_H_def)

lemma ndarray_i_ok:
  "off + 4 \<le> length bs \<Longrightarrow>
     ndarray_i bs off = Inr (sint (word_of_nat (be_nat (take 4 (drop off bs))) :: 32 word))"
  by (simp add: ndarray_i_def)

lemma ndarray_f_ok:
  "off + 4 \<le> length bs \<Longrightarrow> ndarray_f T bs off = Inr (float32 T (take 4 (drop off bs)))"
  by (simp add: ndarray_f_def)

lemmas reads_ok = ndarray_B_ok ndarray_H_ok ndarray_i_ok ndarray_f_ok

lemma assign_Inr: "assign (Inr v) s = Inr (s v)"
  by (simp add: assign_def)

lemma assign_try_read:
  "assign (try_read r f d) s = Inr (s (case r of Inr v \<Rightarrow> f v | Inl _ \<Rightarrow> d))"
  by (cases r) (simp_all add: assign_def try_read_def)

subsection \<open>The post-frame update, phase by phase\<close>

text \<open>Each block of \<open>__post_frame\<close> after the decoding of the fields is one update of the
  player; \<open>post_frame_effect\<close> puts them together for a record that decodes. The previous
  snapshot is read where the source reads it, after the fields are assigned, so that the
  lemma holds also when the previous snapshot is the snapshot under construction.\<close>

lemma upd_player_comp_gen:
  "upd_player g p f2 (upd_player g p f1 c) =
     upd_player g p (\<lambda>s ps. f2 (s\<lparr>player := AList.map_entry p (f1 s) (player s)\<rparr>) (f1 s ps)) c"
  by (simp add: upd_player_def upd_gamestate_def map_entry_comp)

lemma off_stage_run:
  "post_frame_off_stage T g p c =
     (Inr (), upd_player g p
        (\<lambda>s ps. ps\<lparr>off_stage :=
           (case EDGE_GROUND_POSITION T (stage s) of
              None \<Rightarrow> False
            | Some edge \<Rightarrow> (\<bar>p_x ps\<bar> > edge \<or> p_y ps < - 6) \<and> \<not> on_ground ps)\<rparr>) c)"
  apply (simp add: post_frame_off_stage_def with_playerstate_run modifyM_run)
  apply (rule arg_cong[where f="\<lambda>f. upd_player g p f c"])
  apply (intro ext)
  apply (simp split: option.split)
  done

lemma moonwalk_run:
  "post_frame_moonwalkwarning g p c =
     (Inr (), upd_player g p
        (\<lambda>_ ps. ps\<lparr>moonwalkwarning :=
           (if action ps \<noteq> DASHING then False
            else if (\<exists>pp. prev_player p c = Some pp \<and> action pp \<noteq> DASHING \<and> action pp \<noteq> TURNING)
                 then True else moonwalkwarning ps)\<rparr>) c)"
proof (cases "prev_player p c")
  case None
  then show ?thesis
    apply (simp add: post_frame_moonwalkwarning_def M_run set_playerstate_run)
    apply (rule arg_cong[where f="\<lambda>f. upd_player g p f c"])
    apply (intro ext)
    apply simp
    done
next
  case (Some pp)
  then show ?thesis
    apply (simp add: post_frame_moonwalkwarning_def M_run set_playerstate_run upd_player_comp)
    apply (rule arg_cong[where f="\<lambda>f. upd_player g p f c"])
    apply (intro ext)
    apply simp
    done
qed

lemma invulnerability_run:
  "post_frame_invulnerability g p c =
     (Inr (), upd_player g p
        (\<lambda>s ps. ps\<lparr>invulnerability_left :=
           (if action ps = EDGE_CATCHING \<and> action_frame ps = 1 then 36
            else if action ps = ON_HALO_DESCENT \<and> frame s > 150 then 120
            else if action ps = ON_HALO_WAIT then 120
            else case prev_player p c of
                   Some pp \<Rightarrow> max 0 (invulnerability_left pp - 1)
                 | None \<Rightarrow> invulnerability_left ps)\<rparr>) c)"
proof (cases "prev_player p c")
  case None
  then show ?thesis
    apply (simp add: post_frame_invulnerability_def M_run set_playerstate_run
        with_playerstate_run upd_player_comp_gen)
    apply (rule arg_cong[where f="\<lambda>f. upd_player g p f c"])
    apply (intro ext)
    apply simp
    done
next
  case (Some pp)
  then show ?thesis
    apply (simp add: post_frame_invulnerability_def M_run set_playerstate_run
        with_playerstate_run upd_player_comp_gen)
    apply (rule arg_cong[where f="\<lambda>f. upd_player g p f c"])
    apply (intro ext)
    apply simp
    done
qed

lemma ensure_player_run:
  "ensure_player T g p c =
     (Inr (), upd_gamestate g
        (\<lambda>s. if map_of (player s) p = None
             then s\<lparr>player := AList.update p (PlayerState_init T) (player s)\<rparr> else s) c)"
  by (simp add: ensure_player_def set_gamestate_run modifyM_run)

lemma manual_bookend_frame_run:
  "manual_bookend_frame g c =
     (Inr (), if self_use_manual_bookends c then c\<lparr>self_frame := frame (heap c g)\<rparr> else c)"
  by (simp add: manual_bookend_frame_def M_run)

lemma fields_outcome:
  assumes "0x26 \<le> length bs" and "Character_of T (unat (bs ! 7)) = Some chr"
  shows "assign_outcome (post_frame_fields T bs) = Inr ()"
  using assms
  by (simp add: post_frame_fields_def reads_ok assign_Inr assign_try_read bindE_def)

lemma ecb_outcome: "assign_outcome (post_frame_ecb T bs) = Inr ()"
  by (simp add: post_frame_ecb_def assign_Inr)

lemma phase_fst [simp]:
  "fst (set_gamestate g f c) = Inr ()"
  "fst (ensure_player T g p c) = Inr ()"
  "fst (post_frame_invulnerability g p c) = Inr ()"
  "fst (post_frame_moonwalkwarning g p c) = Inr ()"
  "fst (post_frame_off_stage T g p c) = Inr ()"
  "fst (manual_bookend_frame g c) = Inr ()"
  "fst (assign_all g p as c) = assign_outcome as"
  by (simp_all add: set_gamestate_run modifyM_run ensure_player_run invulnerability_run
      moonwalk_run off_stage_run manual_bookend_frame_run assign_all_eq)

lemma phase_snd [simp]:
  "snd (set_gamestate g f c) = upd_gamestate g f c"
  "snd (assign_all g p as c) = upd_player g p (\<lambda>_. apply_all as) c"
  by (simp_all add: set_gamestate_run modifyM_run assign_all_eq)

lemma post_frame_phases:
  assumes len: "0x26 \<le> length bs"
      and ch: "Character_of T (unat (bs ! 7)) = Some chr"
      and p: "p = scalar_add1 T 8 (unat (bs ! 5))"
  shows "post_frame T g bs c =
          (Inr (),
           snd (manual_bookend_frame g
             (upd_player g p (\<lambda>_. apply_all (post_frame_ecb T bs))
               (snd (post_frame_off_stage T g p
                 (snd (post_frame_moonwalkwarning g p
                   (snd (post_frame_invulnerability g p
                     (upd_player g p (\<lambda>_. apply_all (post_frame_fields T bs))
                       (snd (ensure_player T g p
                         (upd_gamestate g
                            (\<lambda>s. s\<lparr>frame := sint (word_of_nat (be_nat (take 4 (drop 1 bs))) :: 32 word)\<rparr>)
                            (upd_gamestate g (\<lambda>s. s\<lparr>stage := self_current_stage c\<rparr>) c))))))))))))))"
  using len p
  by (simp add: post_frame_def bindM_getM bindM_liftE_Inr thenM_Inr returnM_run reads_ok Let_def
      fields_outcome[OF len ch] ecb_outcome)

lemma manual_bookend_frame_heap [simp]:
  "heap (snd (manual_bookend_frame g c)) = heap c"
  "self_prev_gamestate (snd (manual_bookend_frame g c)) = self_prev_gamestate c"
  by (simp_all add: manual_bookend_frame_run)

lemma player_at_manual [simp]:
  "player_at (snd (manual_bookend_frame g c)) r q = player_at c r q"
  by (simp add: player_at_def)

lemma ensure_player_at:
  "player_at (snd (ensure_player T g p c)) r q =
     (if r = g \<and> q = p \<and> player_at c g p = None then Some (PlayerState_init T)
      else player_at c r q)"
  by (simp add: ensure_player_run player_at_def update_conv')

lemma ensure_player_sel [simp]:
  "self_prev_gamestate (snd (ensure_player T g p c)) = self_prev_gamestate c"
  "frame (heap (snd (ensure_player T g p c)) r) = frame (heap c r)"
  "stage (heap (snd (ensure_player T g p c)) r) = stage (heap c r)"
  by (simp_all add: ensure_player_run)

lemma phase_sel [simp]:
  "self_prev_gamestate (snd (post_frame_invulnerability g p c)) = self_prev_gamestate c"
  "self_prev_gamestate (snd (post_frame_moonwalkwarning g p c)) = self_prev_gamestate c"
  "self_prev_gamestate (snd (post_frame_off_stage T g p c)) = self_prev_gamestate c"
  "frame (heap (snd (post_frame_invulnerability g p c)) r) = frame (heap c r)"
  "frame (heap (snd (post_frame_moonwalkwarning g p c)) r) = frame (heap c r)"
  "frame (heap (snd (post_frame_off_stage T g p c)) r) = frame (heap c r)"
  "stage (heap (snd (post_frame_invulnerability g p c)) r) = stage (heap c r)"
  "stage (heap (snd (post_frame_moonwalkwarning g p c)) r) = stage (heap c r)"
  "stage (heap (snd (post_frame_off_stage T g p c)) r) = stage (heap c r)"
  by (simp_all add: invulnerability_run moonwalk_run off_stage_run)

lemma off_stage_player_at:
  "player_at (snd (post_frame_off_stage T g p c)) r q =
     (if r = g \<and> q = p
      then map_option (\<lambda>ps. ps\<lparr>off_stage :=
              (case EDGE_GROUND_POSITION T (stage (heap c g)) of
                 None \<Rightarrow> False
               | Some edge \<Rightarrow> (\<bar>p_x ps\<bar> > edge \<or> p_y ps < - 6) \<and> \<not> on_ground ps)\<rparr>)
             (player_at c g p)
      else player_at c r q)"
  by (simp add: off_stage_run)

lemma moonwalk_player_at:
  "player_at (snd (post_frame_moonwalkwarning g p c)) r q =
     (if r = g \<and> q = p
      then map_option (\<lambda>ps. ps\<lparr>moonwalkwarning :=
              (if action ps \<noteq> DASHING then False
               else if (\<exists>pp. prev_player p c = Some pp \<and> action pp \<noteq> DASHING \<and> action pp \<noteq> TURNING)
                    then True else moonwalkwarning ps)\<rparr>)
             (player_at c g p)
      else player_at c r q)"
  by (simp add: moonwalk_run)

lemma invulnerability_player_at:
  "player_at (snd (post_frame_invulnerability g p c)) r q =
     (if r = g \<and> q = p
      then map_option (\<lambda>ps. ps\<lparr>invulnerability_left :=
              (if action ps = EDGE_CATCHING \<and> action_frame ps = 1 then 36
               else if action ps = ON_HALO_DESCENT \<and> frame (heap c g) > 150 then 120
               else if action ps = ON_HALO_WAIT then 120
               else case prev_player p c of
                      Some pp \<Rightarrow> max 0 (invulnerability_left pp - 1)
                    | None \<Rightarrow> invulnerability_left ps)\<rparr>)
             (player_at c g p)
      else player_at c r q)"
  by (simp add: invulnerability_run)

lemma ecb_apply:
  "apply_all (post_frame_ecb T bs) ps =
     ps\<lparr>ecb_top := (except_TypeError (ndarray_f T bs 0x49) 0, except_TypeError (ndarray_f T bs 0x4D) 0),
        ecb_bottom := (except_TypeError (ndarray_f T bs 0x51) 0, except_TypeError (ndarray_f T bs 0x55) 0),
        ecb_left := (except_TypeError (ndarray_f T bs 0x59) 0, except_TypeError (ndarray_f T bs 0x5D) 0),
        ecb_right := (except_TypeError (ndarray_f T bs 0x61) 0, except_TypeError (ndarray_f T bs 0x65) 0)\<rparr>"
  by (simp add: post_frame_ecb_def assign_Inr)

lemma fields_keep_invulnerability_left:
  "invulnerability_left (apply_all (post_frame_fields T bs) ps) = invulnerability_left ps"
  by (rule apply_all_keeps[where Q=invulnerability_left])
     (auto simp: post_frame_fields_def assign_eq_Inr)

lemma fields_keep_moonwalkwarning:
  "moonwalkwarning (apply_all (post_frame_fields T bs) ps) = moonwalkwarning ps"
  by (rule apply_all_keeps[where Q=moonwalkwarning])
     (auto simp: post_frame_fields_def assign_eq_Inr)

lemma post_frame_effect:
  assumes len: "0x26 \<le> length bs"
      and ch: "Character_of T (unat (bs ! 7)) = Some chr"
      and p: "p = scalar_add1 T 8 (unat (bs ! 5))"
      and fr: "fr = sint (word_of_nat (be_nat (take 4 (drop 1 bs))) :: 32 word)"
      and ps3: "ps3 = apply_all (post_frame_fields T bs)
                        (case player_at c g p of None \<Rightarrow> PlayerState_init T | Some ps0 \<Rightarrow> ps0)"
      and prev3: "prev3 = (if self_prev_gamestate c = g then Some ps3 else prev_player p c)"
  shows "fst (post_frame T g bs c) = Inr ()"
    and "frame (heap (snd (post_frame T g bs c)) g) = fr"
    and "stage (heap (snd (post_frame T g bs c)) g) = self_current_stage c"
    and "self_prev_gamestate (snd (post_frame T g bs c)) = self_prev_gamestate c"
    and "player_at (snd (post_frame T g bs c)) g p =
           Some (apply_all (post_frame_ecb T bs)
             (ps3\<lparr>invulnerability_left :=
                    (if action ps3 = EDGE_CATCHING \<and> action_frame ps3 = 1 then 36
                     else if action ps3 = ON_HALO_DESCENT \<and> fr > 150 then 120
                     else if action ps3 = ON_HALO_WAIT then 120
                     else case prev3 of
                            Some pp \<Rightarrow> max 0 (invulnerability_left pp - 1)
                          | None \<Rightarrow> invulnerability_left ps3),
                  moonwalkwarning :=
                    (if action ps3 \<noteq> DASHING then False
                     else if (\<exists>pp. prev3 = Some pp \<and> action pp \<noteq> DASHING \<and> action pp \<noteq> TURNING)
                          then True else moonwalkwarning ps3),
                  off_stage :=
                    (case EDGE_GROUND_POSITION T (self_current_stage c) of
                       None \<Rightarrow> False
                     | Some edge \<Rightarrow> (\<bar>p_x ps3\<bar> > edge \<or> p_y ps3 < - 6) \<and> \<not> on_ground ps3)\<rparr>))"
proof -
  define c1 where "c1 = upd_gamestate g (\<lambda>s. s\<lparr>frame := fr\<rparr>)
         (upd_gamestate g (\<lambda>s. s\<lparr>stage := self_current_stage c\<rparr>) c)"
  define c2 where "c2 = snd (ensure_player T g p c1)"
  define c3 where "c3 = upd_player g p (\<lambda>_. apply_all (post_frame_fields T bs)) c2"
  define c4 where "c4 = snd (post_frame_invulnerability g p c3)"
  define c5 where "c5 = snd (post_frame_moonwalkwarning g p c4)"
  define c6 where "c6 = snd (post_frame_off_stage T g p c5)"
  define c7 where "c7 = upd_player g p (\<lambda>_. apply_all (post_frame_ecb T bs)) c6"
  have run: "post_frame T g bs c = (Inr (), snd (manual_bookend_frame g c7))"
    unfolding c7_def c6_def c5_def c4_def c3_def c2_def c1_def fr
    by (rule post_frame_phases[OF len ch p])
  show "fst (post_frame T g bs c) = Inr ()"
    by (simp add: run)
  have fr3: "frame (heap c3 g) = fr" and st3: "stage (heap c3 g) = self_current_stage c"
    and pv3: "self_prev_gamestate c3 = self_prev_gamestate c"
    by (simp_all add: c3_def c2_def c1_def)
  show "frame (heap (snd (post_frame T g bs c)) g) = fr"
    by (simp add: run c7_def c6_def c5_def c4_def fr3)
  show "stage (heap (snd (post_frame T g bs c)) g) = self_current_stage c"
    by (simp add: run c7_def c6_def c5_def c4_def st3)
  show "self_prev_gamestate (snd (post_frame T g bs c)) = self_prev_gamestate c"
    by (simp add: run c7_def c6_def c5_def c4_def pv3)
  have pl1: "player_at c1 r q = player_at c r q" for r q
    by (simp add: c1_def player_at_def)
  have pl2: "player_at c2 g p =
               Some (case player_at c g p of None \<Rightarrow> PlayerState_init T | Some ps0 \<Rightarrow> ps0)"
    by (simp add: c2_def ensure_player_at pl1 split: option.split)
  have pl3: "player_at c3 g p = Some ps3"
    by (simp add: c3_def pl2 ps3)
  have other3: "player_at c3 r p = player_at c r p" if "r \<noteq> g" for r
    using that by (simp add: c3_def c2_def ensure_player_at pl1)
  have prev_3: "prev_player p c3 = prev3"
    by (simp add: prev_player_eq pv3 prev3 pl3 other3)
  define iv where "iv = (if action ps3 = EDGE_CATCHING \<and> action_frame ps3 = 1 then 36
                     else if action ps3 = ON_HALO_DESCENT \<and> fr > 150 then 120
                     else if action ps3 = ON_HALO_WAIT then 120
                     else case prev3 of
                            Some pp \<Rightarrow> max 0 (invulnerability_left pp - 1)
                          | None \<Rightarrow> invulnerability_left ps3)"
  have pl4: "player_at c4 g p = Some (ps3\<lparr>invulnerability_left := iv\<rparr>)"
    by (simp add: c4_def invulnerability_player_at pl3 prev_3 fr3 iv_def)
  have other4: "player_at c4 r p = player_at c r p" if "r \<noteq> g" for r
    using that by (simp add: c4_def invulnerability_player_at other3)
  have pv4: "self_prev_gamestate c4 = self_prev_gamestate c"
    by (simp add: c4_def pv3)
  have prev_4: "(\<exists>pp. prev_player p c4 = Some pp \<and> action pp \<noteq> DASHING \<and> action pp \<noteq> TURNING)
                 \<longleftrightarrow> (\<exists>pp. prev3 = Some pp \<and> action pp \<noteq> DASHING \<and> action pp \<noteq> TURNING)"
    by (simp add: prev_player_eq pv4 prev3 pl4 other4)
  define mw where "mw = (if action ps3 \<noteq> DASHING then False
                     else if (\<exists>pp. prev3 = Some pp \<and> action pp \<noteq> DASHING \<and> action pp \<noteq> TURNING)
                          then True else moonwalkwarning ps3)"
  have pl5: "player_at c5 g p = Some (ps3\<lparr>invulnerability_left := iv, moonwalkwarning := mw\<rparr>)"
    by (auto simp: c5_def moonwalk_player_at pl4 prev_4 mw_def)
  have st5: "stage (heap c5 g) = self_current_stage c"
    by (simp add: c5_def c4_def st3)
  have pl7: "player_at c7 g p =
      Some (apply_all (post_frame_ecb T bs)
             (ps3\<lparr>invulnerability_left := iv, moonwalkwarning := mw,
                  off_stage := (case EDGE_GROUND_POSITION T (self_current_stage c) of
                       None \<Rightarrow> False
                     | Some edge \<Rightarrow> (\<bar>p_x ps3\<bar> > edge \<or> p_y ps3 < - 6) \<and> \<not> on_ground ps3)\<rparr>))"
    by (simp add: c7_def c6_def off_stage_player_at pl5 st5 split: option.split)
  show "player_at (snd (post_frame T g bs c)) g p =
           Some (apply_all (post_frame_ecb T bs)
             (ps3\<lparr>invulnerability_left :=
                    (if action ps3 = EDGE_CATCHING \<and> action_frame ps3 = 1 then 36
                     else if action ps3 = ON_HALO_DESCENT \<and> fr > 150 then 120
                     else if action ps3 = ON_HALO_WAIT then 120
                     else case prev3 of
                            Some pp \<Rightarrow> max 0 (invulnerability_left pp - 1)
                          | None \<Rightarrow> invulnerability_left ps3),
                  moonwalkwarning :=
                    (if action ps3 \<noteq> DASHING then False
                     else if (\<exists>pp. prev3 = Some pp \<and> action pp \<noteq> DASHING \<and> action pp \<noteq> TURNING)
                          then True else moonwalkwarning ps3),
                  off_stage :=
                    (case EDGE_GROUND_POSITION T (self_current_stage c) of
                       None \<Rightarrow> False
                     | Some edge \<Rightarrow> (\<bar>p_x ps3\<bar> > edge \<or> p_y ps3 < - 6) \<and> \<not> on_ground ps3)\<rparr>))"
    unfolding run using pl7 by (simp add: iv_def mw_def)
qed

lemma ecb_keep [simp]:
  "action (apply_all (post_frame_ecb T bs) ps) = action ps"
  "action_frame (apply_all (post_frame_ecb T bs) ps) = action_frame ps"
  "invulnerability_left (apply_all (post_frame_ecb T bs) ps) = invulnerability_left ps"
  "moonwalkwarning (apply_all (post_frame_ecb T bs) ps) = moonwalkwarning ps"
  "off_stage (apply_all (post_frame_ecb T bs) ps) = off_stage ps"
  "p_x (apply_all (post_frame_ecb T bs) ps) = p_x ps"
  "p_y (apply_all (post_frame_ecb T bs) ps) = p_y ps"
  "on_ground (apply_all (post_frame_ecb T bs) ps) = on_ground ps"
  by (simp_all add: ecb_apply)

subsection \<open>What the decoders leave as it was\<close>

text \<open>Whatever their outcome, the decoders other than the session start and the frame
  bookend leave \<open>delivery\<close> as it was. By induction over the loop of the dispatcher, over
  the messages of \<open>step\<close> and over the calls of the host, the index last delivered only
  grows while no session start is dispatched.\<close>

lemma keepsD: "keeps obs m \<Longrightarrow> obs (snd (m c)) = obs c"
  by (simp add: keeps_def)

lemma keeps_returnM [intro!]: "keeps obs (returnM v)"
  by (simp add: keeps_def returnM_def)

lemma keeps_raiseM [intro!]: "keeps obs (raiseM e)"
  by (simp add: keeps_def raiseM_def)

lemma keeps_liftE [intro!]: "keeps obs (liftE r)"
  by (simp add: keeps_def liftE_def)

lemma keeps_getM [intro!]: "keeps obs (getM f)"
  by (simp add: keeps_def getM_def)

lemma keeps_modifyM: "(\<And>c. obs (f c) = obs c) \<Longrightarrow> keeps obs (modifyM f)"
  by (simp add: keeps_def modifyM_def)

lemma keeps_bindM [intro!]:
  assumes "keeps obs m" and "\<And>v. keeps obs (k v)"
  shows "keeps obs (bindM m k)"
  unfolding keeps_def
proof
  fix c
  show "obs (snd (bindM m k c)) = obs c"
  proof (cases "m c")
    case (Pair r c')
    with assms(1) have c': "obs c' = obs c"
      by (auto simp: keeps_def dest: spec[where x=c])
    show ?thesis
    proof (cases r)
      case (Inl e)
      with Pair c' show ?thesis by (simp add: bindM_def)
    next
      case (Inr v)
      with Pair c' assms(2)[of v] show ?thesis by (simp add: bindM_def keeps_def)
    qed
  qed
qed

lemma keeps_thenM [intro!]: "keeps obs m \<Longrightarrow> keeps obs n \<Longrightarrow> keeps obs (thenM m n)"
  by (auto simp: thenM_def)

lemma keeps_seqM: "(\<And>m. m \<in> set ms \<Longrightarrow> keeps obs m) \<Longrightarrow> keeps obs (seqM ms)"
  by (induction ms) auto

lemma keeps_if [intro!]: "keeps obs m \<Longrightarrow> keeps obs n \<Longrightarrow> keeps obs (if b then m else n)"
  by simp

lemma keeps_case_option [intro!]:
  "keeps obs m \<Longrightarrow> (\<And>v. keeps obs (k v)) \<Longrightarrow> keeps obs (case x of None \<Rightarrow> m | Some v \<Rightarrow> k v)"
  by (cases x) simp_all

lemma keeps_set_gamestate:
  "(\<And>c h. obs (c\<lparr>heap := h\<rparr>) = obs c) \<Longrightarrow> keeps obs (set_gamestate g f)"
  by (simp add: set_gamestate_def keeps_modifyM)

lemma keeps_with_playerstate:
  "(\<And>c h. obs (c\<lparr>heap := h\<rparr>) = obs c) \<Longrightarrow> keeps obs (with_playerstate g p f)"
  by (simp add: with_playerstate_def keeps_set_gamestate)

lemma keeps_set_playerstate:
  "(\<And>c h. obs (c\<lparr>heap := h\<rparr>) = obs c) \<Longrightarrow> keeps obs (set_playerstate g p f)"
  by (simp add: set_playerstate_def keeps_with_playerstate)

lemma keeps_ensure_player:
  "(\<And>c h. obs (c\<lparr>heap := h\<rparr>) = obs c) \<Longrightarrow> keeps obs (ensure_player T g p)"
  by (simp add: ensure_player_def keeps_set_gamestate)

lemma keeps_assign_all:
  "(\<And>c h. obs (c\<lparr>heap := h\<rparr>) = obs c) \<Longrightarrow> keeps obs (assign_all g p as)"
  by (simp add: keeps_def assign_all_eq upd_player_def upd_gamestate_def)

lemmas keeps_heap = keeps_set_gamestate keeps_with_playerstate keeps_set_playerstate
  keeps_ensure_player keeps_assign_all

lemma delivery_heap [simp]: "delivery (c\<lparr>heap := h\<rparr>) = delivery c"
  by (simp add: delivery_def)

lemma delivery_eventsize [simp]: "delivery (c\<lparr>eventsize := e\<rparr>) = delivery c"
  by (simp add: delivery_def)

lemma keeps_delivery_manual: "keeps delivery (manual_bookend_frame g)"
  by (simp add: keeps_def manual_bookend_frame_run delivery_def)

lemma keeps_delivery_post_frame: "keeps delivery (post_frame T g bs)"
  unfolding post_frame_def Let_def post_frame_invulnerability_def
    post_frame_moonwalkwarning_def post_frame_off_stage_def
  by (intro keeps_bindM keeps_thenM keeps_getM keeps_liftE keeps_seqM keeps_heap
        keeps_case_option keeps_returnM)
     (auto intro!: keeps_heap keeps_delivery_manual keeps_seqM)

lemma keeps_delivery_pre_frame: "keeps delivery (pre_frame T g bs)"
  unfolding pre_frame_def Let_def
  by (intro keeps_bindM keeps_thenM keeps_getM keeps_liftE keeps_seqM keeps_heap
        keeps_case_option keeps_returnM)
     (auto intro!: keeps_heap keeps_delivery_manual)

lemma keeps_delivery_item_update: "keeps delivery (item_update T g bs)"
  unfolding item_update_def
  by (intro keeps_bindM keeps_liftE keeps_heap) simp

lemma keeps_delivery_payloads_loop: "keeps delivery (payloads_loop T bs n cursor)"
  by (induction n arbitrary: cursor) (auto intro!: keeps_modifyM)

lemma keeps_delivery_frame_bookend_no: "keeps self_frame (frame_bookend T g bs)"
  unfolding frame_bookend_def
  by (intro keeps_thenM keeps_modifyM keeps_set_gamestate) simp_all


lemma frame_bookend_run:
  "frame_bookend T g bs c =
     (Inr (), upd_gamestate g (\<lambda>s. s\<lparr>distance := bookend_distance (player s)\<rparr>)
                (c\<lparr>self_prev_gamestate := g\<rparr>))"
  by (simp add: frame_bookend_def M_run set_gamestate_run)

lemma thenM_returnM_result:
  assumes "thenM m (returnM v) c = (r, c')"
  shows "c' = snd (m c) \<and> (r = Inr v \<or> (\<exists>e. r = Inl e))"
  using assms by (cases "m c") (auto simp: thenM_run returnM_run split: sum.splits)

lemma delivery_not_manual:
  assumes "delivery c' = delivery c" and "\<not> self_use_manual_bookends c"
  shows "\<not> self_use_manual_bookends c'" and "self_frame c' = self_frame c"
  using assms by (auto simp: delivery_def split: if_splits)

lemma dispatch_event_delivery:
  assumes ev: "length bs < eventsize c (bs ! 0)
               \<or> EventType_of T (unat (bs ! 0)) \<noteq> Some GAME_START"
      and nm: "\<not> self_use_manual_bookends c"
      and run: "dispatch_event T g bs c = (r, c')"
  shows "\<not> self_use_manual_bookends c'
       \<and> (r = Inr (Return True) \<longrightarrow> self_frame c < self_frame c' \<and> self_frame c' = frame (heap c' g))
       \<and> (r \<noteq> Inr (Return True) \<longrightarrow> self_frame c' = self_frame c)"
proof (cases "length bs < eventsize c (bs ! 0)")
  case True
  with run nm show ?thesis
    by (auto simp: dispatch_event_def M_run)
next
  case False
  note big = False
  show ?thesis
  proof (cases "EventType_of T (unat (bs ! 0))")
    case None
    with run nm big show ?thesis
      by (auto simp: dispatch_event_def M_run)
  next
    case (Some et)
    have keep: "\<not> self_use_manual_bookends c'
       \<and> (r = Inr (Return True) \<longrightarrow> self_frame c < self_frame c' \<and> self_frame c' = frame (heap c' g))
       \<and> (r \<noteq> Inr (Return True) \<longrightarrow> self_frame c' = self_frame c)"
      if h: "thenM m (returnM (Continue (drop k bs))) c = (r, c')" and k: "keeps delivery m"
      for m :: "unit M" and k
    proof -
      from thenM_returnM_result[OF h]
      have c': "c' = snd (m c)" and r: "r = Inr (Continue (drop k bs)) \<or> (\<exists>e. r = Inl e)"
        by auto
      from k c' have "delivery c' = delivery c"
        by (simp add: keepsD)
      from delivery_not_manual[OF this nm] r show ?thesis
        by auto
    qed
    show ?thesis
    proof (cases et)
      case GECKO_CODES
      with run nm big Some show ?thesis
        by (auto simp: dispatch_event_def M_run)
    next
      case PAYLOADS
      show ?thesis
      proof (cases "bytes_index bs 1")
        case (Inl e)
        with run nm big Some PAYLOADS show ?thesis
          by (auto simp: dispatch_event_def M_run)
      next
        case (Inr payload_size)
        with run big Some PAYLOADS
        have "thenM (payloads_loop T bs (nat ((int payload_size - 1) div 3)) 0x2)
                (returnM (Continue (drop (payload_size + 1) bs))) c = (r, c')"
          by (simp add: dispatch_event_def M_run Let_def)
        from keep[OF this keeps_delivery_payloads_loop] show ?thesis .
      qed
    next
      case GAME_START
      with ev big Some show ?thesis by simp
    next
      case PRE_FRAME
      with run big Some
      have "thenM (pre_frame T g bs) (returnM (Continue (drop (eventsize c (bs ! 0)) bs))) c = (r, c')"
        by (simp add: dispatch_event_def M_run)
      from keep[OF this keeps_delivery_pre_frame] show ?thesis .
    next
      case POST_FRAME
      with run big Some
      have "thenM (post_frame T g bs) (returnM (Continue (drop (eventsize c (bs ! 0)) bs))) c = (r, c')"
        by (simp add: dispatch_event_def M_run)
      from keep[OF this keeps_delivery_post_frame] show ?thesis .
    next
      case GAME_END
      with run nm big Some show ?thesis
        by (auto simp: dispatch_event_def M_run)
    next
      case FRAME_START
      with run nm big Some show ?thesis
        by (auto simp: dispatch_event_def M_run)
    next
      case ITEM_UPDATE
      with run big Some
      have "thenM (item_update T g bs) (returnM (Continue (drop (eventsize c (bs ! 0)) bs))) c = (r, c')"
        by (simp add: dispatch_event_def M_run)
      from keep[OF this keeps_delivery_item_update] show ?thesis .
    next
      case FRAME_BOOKEND
      with run nm big Some show ?thesis
        by (auto simp: dispatch_event_def frame_bookend_run M_run split: if_splits)
    next
      case OTHER_EVENT
      with run nm big Some show ?thesis
        by (auto simp: dispatch_event_def M_run)
    qed
  qed
qed

subsection \<open>Runs that dispatch no session start\<close>

text \<open>The unfolding of \<open>session_start_dispatched\<close> along the loop of the dispatcher, and
  what a run without a session start does to the index last delivered.\<close>

lemma session_start_dispatched_Nil: "\<not> session_start_dispatched T g [] c"
  by (auto elim: session_start_dispatched.cases)

lemma session_start_dispatched_Cons:
  "session_start_dispatched T g (b # bs) c \<longleftrightarrow>
     (\<not> length (b # bs) < eventsize c b \<and> EventType_of T (unat b) = Some GAME_START)
     \<or> (case dispatch_event T g (b # bs) c of
           (Inr (Continue rest), c') \<Rightarrow> session_start_dispatched T g rest c'
         | _ \<Rightarrow> False)"
  (is "?l \<longleftrightarrow> ?r")
proof
  assume ?l
  then show ?r
    by (cases rule: session_start_dispatched.cases) auto
next
  assume ?r
  then show ?l
  proof
    assume "\<not> length (b # bs) < eventsize c b \<and> EventType_of T (unat b) = Some GAME_START"
    then show ?l
      by (auto intro: session_start_dispatched.at_cursor)
  next
    assume a: "case dispatch_event T g (b # bs) c of
                 (Inr (Continue rest), c') \<Rightarrow> session_start_dispatched T g rest c'
               | _ \<Rightarrow> False"
    then obtain rest c' where "dispatch_event T g (b # bs) c = (Inr (Continue rest), c')"
      and "session_start_dispatched T g rest c'"
      by (auto split: prod.splits sum.splits control.splits)
    then show ?l
      by (auto intro: session_start_dispatched.further_on)
  qed
qed

lemma events_loop_delivery:
  assumes "events_loop T g bs c = Some y"
  shows "\<not> self_use_manual_bookends c \<longrightarrow> \<not> session_start_dispatched T g bs c \<longrightarrow>
           \<not> self_use_manual_bookends (snd y)
         \<and> (fst y = Inr True \<longrightarrow> self_frame c < self_frame (snd y)
                                \<and> self_frame (snd y) = frame (heap (snd y) g))
         \<and> (fst y \<noteq> Inr True \<longrightarrow> self_frame (snd y) = self_frame c)"
  using assms
proof (induction rule: events_loop.raw_induct[rotated 1, consumes 1])
  case (1 loop T g bs c y)
  show ?case
  proof (intro impI)
    assume nm: "\<not> self_use_manual_bookends c"
       and gs: "\<not> session_start_dispatched T g bs c"
    show "\<not> self_use_manual_bookends (snd y)
         \<and> (fst y = Inr True \<longrightarrow> self_frame c < self_frame (snd y)
                                \<and> self_frame (snd y) = frame (heap (snd y) g))
         \<and> (fst y \<noteq> Inr True \<longrightarrow> self_frame (snd y) = self_frame c)"
    proof (cases "bs = []")
      case True
      with 1(2) nm show ?thesis by auto
    next
      case False
      with gs have ev: "length bs < eventsize c (bs ! 0)
                        \<or> EventType_of T (unat (bs ! 0)) \<noteq> Some GAME_START"
        by (auto intro: session_start_dispatched.at_cursor)
      obtain r c1 where d: "dispatch_event T g bs c = (r, c1)"
        by (cases "dispatch_event T g bs c")
      note dd = dispatch_event_delivery[OF ev nm d]
      show ?thesis
      proof (cases r)
        case (Inl e)
        with 1(2) False d dd show ?thesis by auto
      next
        case (Inr ctl)
        show ?thesis
        proof (cases ctl)
          case (Return b)
          with 1(2) False d dd Inr show ?thesis by (cases b) auto
        next
          case (Continue rest)
          with 1(2) False d Inr have rec: "loop T g rest c1 = Some y" by simp
          from gs False d Inr Continue have gs1: "\<not> session_start_dispatched T g rest c1"
            by (auto intro: session_start_dispatched.further_on)
          from dd Continue Inr have nm1: "\<not> self_use_manual_bookends c1"
            and fr1: "self_frame c1 = self_frame c"
            by auto
          from 1(1)[OF rec] nm1 gs1 fr1 show ?thesis by auto
        qed
      qed
    qed
  qed
qed

lemma fix_sel [simp]:
  "self_frame (fixiasa T g c) = self_frame c"
  "self_frame (fixframeindexing T g c) = self_frame c"
  "self_use_manual_bookends (fixiasa T g c) = self_use_manual_bookends c"
  "self_use_manual_bookends (fixframeindexing T g c) = self_use_manual_bookends c"
  "frame (heap (fixiasa T g c) r) = frame (heap c r)"
  "frame (heap (fixframeindexing T g c) r) = frame (heap c r)"
  by (simp_all add: fixiasa_def fixframeindexing_def)

lemma gameplay_Cons: "gameplay (m # ms) \<Longrightarrow> gameplay ms"
  by (simp add: gameplay_def)

text \<open>The loop of \<open>step\<close> takes the first message and, unless that ends the call, goes on
  with the others.\<close>

lemma step_loop_Cons:
  "step_loop T g (m # ms) c =
     (case step_loop T g [m] c of
        None \<Rightarrow> None
      | Some (r, _, c') \<Rightarrow> if r = Inr False then step_loop T g ms c' else Some (r, ms, c'))"
  by (cases m)
     (auto split: option.splits sum.splits prod.splits bool.splits)

lemma step_loop_single_delivery:
  assumes run: "step_loop T g [m] c = Some (r, rest, c')"
      and nm: "\<not> self_use_manual_bookends c"
      and ns: "\<not> session_start_in_loop T g [m] c"
      and gp: "gameplay [m]"
  shows "\<not> self_use_manual_bookends c'
       \<and> (r = Inr True \<longrightarrow> self_frame c < self_frame c' \<and> self_frame c' = frame (heap c' g))
       \<and> (r \<noteq> Inr True \<longrightarrow> self_frame c' = self_frame c)"
proof (cases m)
  case Connect_reply
  with run nm show ?thesis by auto
next
  case (Game_event payload)
  show ?thesis
  proof (cases "length payload > 0")
    case False
    with run nm Game_event show ?thesis by auto
  next
    case True
    define c0 where "c0 = upd_gamestate g (\<lambda>s. s\<lparr>menu_state := IN_GAME\<rparr>) c"
    have nm0: "\<not> self_use_manual_bookends c0" and fr0: "self_frame c0 = self_frame c"
      using nm by (simp_all add: c0_def)
    have h: "handle_slippstream_events T payload g c = events_loop T g payload c0"
      by (simp add: handle_slippstream_events_def c0_def)
    from ns Game_event True have gs: "\<not> session_start_dispatched T g payload c0"
      by (simp add: session_start_in_events_def c0_def)
    show ?thesis
    proof (cases "events_loop T g payload c0")
      case None
      with run Game_event True h show ?thesis by simp
    next
      case (Some y)
      from events_loop_delivery[OF Some] nm0 gs fr0
      have y: "\<not> self_use_manual_bookends (snd y)
             \<and> (fst y = Inr True \<longrightarrow> self_frame c < self_frame (snd y)
                                    \<and> self_frame (snd y) = frame (heap (snd y) g))
             \<and> (fst y \<noteq> Inr True \<longrightarrow> self_frame (snd y) = self_frame c)"
        by auto
      obtain r1 c1 where yy: "y = (r1, c1)" by (cases y)
      show ?thesis
      proof (cases r1)
        case (Inl e)
        with run Game_event True h Some yy y show ?thesis by auto
      next
        case (Inr b)
        with run Game_event True h Some yy y show ?thesis by (cases b) auto
      qed
    qed
  qed
next
  case (Menu_event payload)
  with gp have "payload = []" by (simp add: gameplay_def)
  with run nm Menu_event show ?thesis by auto
next
  case Frame_end
  with run nm show ?thesis by auto
next
  case Other_message
  with run nm show ?thesis by auto
qed

lemma step_loop_delivery:
  assumes "step_loop T g msgs c = Some (r, rest, c')"
      and "\<not> self_use_manual_bookends c"
      and "\<not> session_start_in_loop T g msgs c"
      and "gameplay msgs"
  shows "\<not> self_use_manual_bookends c' \<and> gameplay rest
       \<and> (r = Inr True \<longrightarrow> self_frame c < self_frame c' \<and> self_frame c' = frame (heap c' g))
       \<and> (r \<noteq> Inr True \<longrightarrow> self_frame c' = self_frame c)"
  using assms
proof (induction msgs arbitrary: c)
  case Nil
  then show ?case by (auto simp: gameplay_def)
next
  case (Cons m ms)
  from Cons.prems(4) have gp1: "gameplay [m]" and gps: "gameplay ms"
    by (simp_all add: gameplay_def)
  note nm = Cons.prems(2)
  from Cons.prems(3) have ns1: "\<not> session_start_in_loop T g [m] c"
    by (auto split: message.splits option.splits prod.splits sum.splits bool.splits)
  show ?case
  proof (cases "step_loop T g [m] c")
    case None
    with Cons.prems(1) show ?thesis
      by (subst (asm) step_loop_Cons) simp
  next
    case (Some y)
    obtain r1 rest1 c1 where y: "y = (r1, rest1, c1)" by (cases y)
    note d = step_loop_single_delivery[OF Some[unfolded y] nm ns1 gp1]
    show ?thesis
    proof (cases "r1 = Inr False")
      case True
      with Cons.prems(1) Some y have rec: "step_loop T g ms c1 = Some (r, rest, c')"
        by (subst (asm) step_loop_Cons) simp
      from Cons.prems(3) Some y True have ns': "\<not> session_start_in_loop T g ms c1"
        by simp
      from d True have nm1: "\<not> self_use_manual_bookends c1"
        and fr1: "self_frame c1 = self_frame c" by auto
      from Cons.IH[OF rec nm1 ns' gps] fr1 show ?thesis by auto
    next
      case False
      with Cons.prems(1) Some y have "r = r1" "rest = ms" "c' = c1"
        by (subst (asm) step_loop_Cons, simp)+
      with d gps show ?thesis by auto
    qed
  qed
qed

lemma step_delivery:
  assumes run: "step T msgs c = Some (r, rest, c')"
      and nm: "\<not> self_use_manual_bookends c"
      and ns: "\<not> session_start_in_step T msgs c"
      and gp: "gameplay msgs"
  shows "\<not> self_use_manual_bookends c' \<and> gameplay rest
       \<and> (\<forall>g. r = Inr (Some g) \<longrightarrow> self_frame c < frame (heap c' g) \<and> self_frame c' = frame (heap c' g))
       \<and> ((\<forall>g. r \<noteq> Inr (Some g)) \<longrightarrow> self_frame c' = self_frame c)"
proof -
  define c1 where "c1 = (case self_temp_gamestate c of
                  None \<Rightarrow> c\<lparr>heap := (heap c)(next_ref c := GameState_init T),
                             self_temp_gamestate := Some (next_ref c),
                             next_ref := next_ref c + 1\<rparr>
                | Some _ \<Rightarrow> c)"
  define g where "g = (case self_temp_gamestate c of None \<Rightarrow> next_ref c | Some r \<Rightarrow> r)"
  have nm1: "\<not> self_use_manual_bookends c1" and fr1: "self_frame c1 = self_frame c"
    using nm by (simp_all add: c1_def split: option.split)
  from ns have ns1: "\<not> session_start_in_loop T g msgs c1"
    by (simp add: session_start_in_step_def c1_def g_def Let_def)
  show ?thesis
  proof (cases "step_loop T g msgs c1")
    case None
    with run show ?thesis by (simp add: step_def c1_def g_def Let_def)
  next
    case (Some y)
    obtain r2 rest2 c2 where y: "y = (r2, rest2, c2)" by (cases y)
    note d = step_loop_delivery[OF Some[unfolded y] nm1 ns1 gp]
    show ?thesis
    proof (cases r2)
      case (Inl e)
      with run Some y d fr1 show ?thesis
        by (auto simp: step_def c1_def[symmetric] g_def[symmetric] Let_def)
    next
      case (Inr b)
      with run Some y d fr1 show ?thesis
        by (cases b) (auto simp: step_def c1_def[symmetric] g_def[symmetric] Let_def)
    qed
  qed
qed

lemmas session_defs = session_start_in_step_def session_start_in_events_def
  session_start_dispatched_Nil session_start_dispatched_Cons

lemma seqM_after_two:
  assumes "\<And>m. m \<in> set ms \<Longrightarrow> keeps obs m"
  shows "obs (snd (seqM (modifyM f1 # modifyM f2 # ms) c)) = obs (f2 (f1 c))"
  using keeps_seqM[of ms obs, OF assms]
  by (simp add: thenM_modifyM keepsD)

lemma game_start_manual:
  assumes len: "4 \<le> length bs"
  shows "self_use_manual_bookends (snd (game_start T g bs c)) =
           (self_allow_old_version c
            \<and> version_lt (unat (bs ! 1), unat (bs ! 2), unat (bs ! 3)) (3, 0, 0))"
proof -
  have r1: "ndarray_B bs 0x1 = Inr (unat (bs ! 1))"
   and r2: "ndarray_B bs 0x2 = Inr (unat (bs ! 2))"
   and r3: "ndarray_B bs 0x3 = Inr (unat (bs ! 3))"
    using len by (simp_all add: reads_ok)
  show ?thesis
    apply (simp only: game_start_def thenM_modifyM r1 r2 r3 bindM_liftE_Inr)
    apply (rule trans[OF seqM_after_two])
     apply (auto intro!: keeps_modifyM keeps_seqM)
    done
qed

lemma game_start_raises:
  assumes len: "4 \<le> length bs"
      and low: "unat (bs ! 1) < 3" and no: "\<not> self_allow_old_version c"
  shows "fst (game_start T g bs c) = Inl (SlippiVersionTooLow (unat (bs ! 1)) (unat (bs ! 2)) (unat (bs ! 3)))"
  using assms
  by (simp add: game_start_def M_run reads_ok)

section \<open>The claims\<close>

subsection \<open>Item update: the owner of a projectile\<close>

text \<open>
  Claim C8 asks, for every item-update record, for an owner port that is the raw owner
  byte plus 1, with -1 in place of a result greater than 4. For every record that holds
  the owner byte (offset \<open>0x2A\<close>) the decoder appends one projectile, and its owner is what
  the claim says except for the raw byte 255 when numpy scalars wrap around: the sum is 0
  then, which is not greater than 4, and the owner is 0. (255 is the byte of a projectile
  without an owner.)
\<close>

theorem item_update_owner:
  assumes "0x2A < length event_bytes"
  shows "fst (item_update T g event_bytes c) = Inr ()
         \<and> (let ps' = projectiles (heap (snd (item_update T g event_bytes c)) g);
                raw = int (unat (event_bytes ! 0x2A))
            in ps' \<noteq> [] \<and> butlast ps' = projectiles (heap c g)
               \<and> owner (last ps') = (if scalar_wraps T \<and> raw = 255 then 0
                                     else if raw + 1 > 4 then - 1 else raw + 1))"
proof -
  have raw: "unat (event_bytes ! 0x2A) < 256"
    using unsigned_less[of "event_bytes ! 0x2A", where 'a = nat] by simp
  have sum: "scalar_add1 T 8 v = (if scalar_wraps T \<and> v = 255 then 0 else v + 1)"
    if "v < 256" for v
    using that by (auto simp: scalar_add1_def)
  show ?thesis
    using assms
    by (simp add: item_update_def item_update_projectile_def M_defs bindE_def try_read_def
        ndarray_f_def ndarray_B_def ndarray_H_def set_gamestate_def Let_def sum raw
        del: of_nat_unat)
qed

text \<open>The records with the owner bytes 0, 4 and 255, with scalars that wrap around: the
  owners are 1, -1 and 0.\<close>

theorem item_update_owner_witness:
  "0x2A < length (ex_item_update 0) \<and> 0x2A < length (ex_item_update 4)
   \<and> 0x2A < length (ex_item_update 0xFF) \<and> scalar_wraps example_tables
   \<and> map owner (projectiles (heap (snd (item_update example_tables 1 (ex_item_update 0) ex_console)) 1)) = [1]
   \<and> map owner (projectiles (heap (snd (item_update example_tables 1 (ex_item_update 4) ex_console)) 1)) = [- 1]
   \<and> map owner (projectiles (heap (snd (item_update example_tables 1 (ex_item_update 0xFF) ex_console)) 1)) = [0]"
proof -
  have l0: "0x2A < length (ex_item_update 0)" and l4: "0x2A < length (ex_item_update 4)"
    and l255: "0x2A < length (ex_item_update 0xFF)"
    by (simp_all add: ex_item_update_def)
  show ?thesis
    using item_update_owner[OF l0, of example_tables 1 ex_console]
          item_update_owner[OF l4, of example_tables 1 ex_console]
          item_update_owner[OF l255, of example_tables 1 ex_console]
    by (simp add: eval_defs Let_def item_update_projectile_def)
qed

subsection \<open>Post-frame update: the off-stage flag\<close>

text \<open>
  Claim C1, as amended. For every post-frame update that decodes (a record of at least
  \<open>0x26\<close> bytes with a known character id), the off-stage flag of the player is true
  exactly when the player is airborne and either the absolute horizontal position exceeds
  the ground-edge bound of the current stage or the vertical position is below -6; when
  the current stage has no entry in the ground-edge table, the flag is false. The flag
  is stated in terms of the position and the grounded flag of the same emitted player.
\<close>

theorem post_frame_off_stage_flag:
  assumes len: "0x26 \<le> length event_bytes"
      and ch: "Character_of T (unat (event_bytes ! 7)) = Some chr"
  shows "fst (post_frame T g event_bytes c) = Inr ()
       \<and> stage (heap (snd (post_frame T g event_bytes c)) g) = self_current_stage c
       \<and> (\<exists>ps. player_at (snd (post_frame T g event_bytes c)) g (scalar_add1 T 8 (unat (event_bytes ! 5))) = Some ps
              \<and> off_stage ps =
                  (case EDGE_GROUND_POSITION T (self_current_stage c) of
                     None \<Rightarrow> False
                   | Some edge \<Rightarrow> (\<bar>p_x ps\<bar> > edge \<or> p_y ps < - 6) \<and> \<not> on_ground ps))"
  using post_frame_effect[OF len ch refl refl refl refl, of g c]
  by (simp split: option.split)

text \<open>The example of the specification: bound 85, position (90, -10), airborne.\<close>

theorem post_frame_off_stage_flag_witness:
  "0x26 \<le> length (ex_post_frame 5 0x0E [0x42, 0xB4, 0, 0] [0xC1, 0x20, 0, 0] [0, 0, 0, 0] 1)
   \<and> Character_of example_tables
        (unat (ex_post_frame 5 0x0E [0x42, 0xB4, 0, 0] [0xC1, 0x20, 0, 0] [0, 0, 0, 0] 1 ! 7))
       = Some (Character_member 2)
   \<and> map_option (\<lambda>ps. (p_x ps, p_y ps, on_ground ps, off_stage ps))
        (player_at (snd (post_frame example_tables 1
           (ex_post_frame 5 0x0E [0x42, 0xB4, 0, 0] [0xC1, 0x20, 0, 0] [0, 0, 0, 0] 1) ex_console)) 1 1)
       = Some (90, - 10, False, True)"
proof -
  have len: "0x26 \<le> length (ex_post_frame 5 0x0E [0x42, 0xB4, 0, 0] [0xC1, 0x20, 0, 0] [0, 0, 0, 0] 1)"
    by (simp add: ex_post_frame_def)
  have ch: "Character_of example_tables
        (unat (ex_post_frame 5 0x0E [0x42, 0xB4, 0, 0] [0xC1, 0x20, 0, 0] [0, 0, 0, 0] 1 ! 7))
       = Some (Character_member 2)"
    by (simp add: ex_post_frame_def example_tables_sel)
  show ?thesis
    using post_frame_off_stage_flag[OF len ch, of 1 ex_console] len ch
    by (simp add: eval_defs cong: weak_congs)
qed

text \<open>
  The claim as it is written asks for the conjunction of the three conditions. A player
  at (0, -10) in the air is inside the ground edge of 85, and flagged off stage.
\<close>

theorem off_stage_conjunction_counterexample:
  "map_option (\<lambda>ps. (p_x ps, p_y ps, on_ground ps, off_stage ps))
     (player_at (snd (post_frame example_tables 1
        (ex_post_frame 5 0x0E [0, 0, 0, 0] [0xC1, 0x20, 0, 0] [0, 0, 0, 0] 1) ex_console)) 1 1)
     = Some (0, - 10, False, True)
   \<and> EDGE_GROUND_POSITION example_tables (self_current_stage ex_console) = Some 85
   \<and> \<not> (\<bar>0 :: real\<bar> > 85 \<and> (- 10 :: real) < - 6 \<and> \<not> False)"
  by (simp add: eval_defs cong: weak_congs)

subsection \<open>Post-frame update: the invulnerability countdown\<close>



subsection \<open>Frame bookend: the distance with fewer than two players\<close>

text \<open>
  Claim C10. When a frame bookend is processed for a snapshot with fewer than two
  players, the missing positions are (0, 0): with exactly one player the distance is the
  Euclidean distance of that player from the origin, and with no player it is 0.
\<close>

theorem frame_bookend_distance_few_players:
  "fst (frame_bookend T g event_bytes c) = Inr ()
   \<and> (player (heap c g) = [] \<longrightarrow>
        distance (heap (snd (frame_bookend T g event_bytes c)) g) = 0)
   \<and> (\<forall>port ps. player (heap c g) = [(port, ps)] \<longrightarrow>
        distance (heap (snd (frame_bookend T g event_bytes c)) g)
          = sqrt ((p_x ps) ^ 2 + (p_y ps) ^ 2))"
  by (simp add: frame_bookend_def M_defs set_gamestate_def bookend_distance_def)

text \<open>A snapshot without players, and one with a single player at (3, 4).\<close>

theorem frame_bookend_distance_few_players_witness:
  "player (heap ex_console 1) = []
   \<and> distance (heap (snd (frame_bookend example_tables 1 (ex_bookend 5) ex_console)) 1) = 0
   \<and> player (heap ex_console_one_player 1) = [(1, example_PlayerState\<lparr>p_x := 3, p_y := 4\<rparr>)]
   \<and> distance (heap (snd (frame_bookend example_tables 1 (ex_bookend 5) ex_console_one_player)) 1)
       = 5"
proof -
  have none: "player (heap ex_console 1) = []"
    by (simp add: eval_defs)
  have one: "player (heap ex_console_one_player 1) = [(1, example_PlayerState\<lparr>p_x := 3, p_y := 4\<rparr>)]"
    by (simp add: eval_defs)
  have root: "sqrt 25 = (5 :: real)"
    by (rule real_sqrt_unique) simp_all
  show ?thesis
    using frame_bookend_distance_few_players[of example_tables 1 "ex_bookend 5" ex_console]
          frame_bookend_distance_few_players[of example_tables 1 "ex_bookend 5" ex_console_one_player]
          none one
    by (simp add: root)
qed

subsection \<open>Session start: the version gate\<close>

text \<open>
  Claim C6. When the session-start record declares a protocol version below 3.0.0 and the
  caller has not enabled the old-version opt-in, decoding fails: \<open>__game_start\<close> raises
  \<open>SlippiVersionTooLow\<close>, and the dispatcher hands the exception on. Legacy-bookend mode
  is active after the record if and only if the caller enabled the opt-in and the
  declared version is below 3.0.0.
\<close>

theorem game_start_version_gate:
  assumes len: "4 \<le> length event_bytes"
  shows "(version_lt (unat (event_bytes ! 1), unat (event_bytes ! 2), unat (event_bytes ! 3)) (3, 0, 0)
            \<and> \<not> self_allow_old_version c
          \<longrightarrow> fst (game_start T g event_bytes c)
                = Inl (SlippiVersionTooLow (unat (event_bytes ! 1)) (unat (event_bytes ! 2))
                         (unat (event_bytes ! 3)))
              \<and> (EventType_of T (unat (event_bytes ! 0)) = Some GAME_START
                   \<and> eventsize c (event_bytes ! 0) \<le> length event_bytes
                 \<longrightarrow> map_option fst (handle_slippstream_events T event_bytes g c)
                       = Some (Inl (SlippiVersionTooLow (unat (event_bytes ! 1))
                                      (unat (event_bytes ! 2)) (unat (event_bytes ! 3))))))
       \<and> (self_use_manual_bookends (snd (game_start T g event_bytes c))
            \<longleftrightarrow> self_allow_old_version c
                \<and> version_lt (unat (event_bytes ! 1), unat (event_bytes ! 2), unat (event_bytes ! 3))
                     (3, 0, 0))"
proof -
  obtain b rest where bs: "event_bytes = b # rest"
    using len by (cases event_bytes) auto
  define c0 where "c0 = upd_gamestate g (\<lambda>s. s\<lparr>menu_state := IN_GAME\<rparr>) c"
  have raise: "fst (game_start T g event_bytes c')
                = Inl (SlippiVersionTooLow (unat (event_bytes ! 1)) (unat (event_bytes ! 2))
                         (unat (event_bytes ! 3)))"
    if "unat (event_bytes ! 1) < 3" and "\<not> self_allow_old_version c'" for c'
    using game_start_raises[OF len that] .
  have handled: "map_option fst (handle_slippstream_events T event_bytes g c)
                       = Some (Inl (SlippiVersionTooLow (unat (event_bytes ! 1))
                                      (unat (event_bytes ! 2)) (unat (event_bytes ! 3))))"
    if low: "unat (event_bytes ! 1) < 3" and no: "\<not> self_allow_old_version c"
      and ev: "EventType_of T (unat (event_bytes ! 0)) = Some GAME_START"
      and sz: "eventsize c (event_bytes ! 0) \<le> length event_bytes"
  proof -
    from no have "\<not> self_allow_old_version c0"
      by (simp add: c0_def)
    from raise[OF low this] obtain c1 where
      "game_start T g event_bytes c0
         = (Inl (SlippiVersionTooLow (unat (event_bytes ! 1)) (unat (event_bytes ! 2))
                         (unat (event_bytes ! 3))), c1)"
      by (cases "game_start T g event_bytes c0") auto
    with ev sz show ?thesis
      unfolding handle_slippstream_events_def set_gamestate_run modifyM_run snd_conv
        c0_def[symmetric]
      by (simp add: bs events_loop_Cons dispatch_event_def M_run c0_def)
  qed
  show ?thesis
    using raise[of c] handled game_start_manual[OF len, of T g c]
    by (auto simp: version_lt_def)
qed

text \<open>Version 2.0.0 without the opt-in.\<close>

theorem game_start_version_gate_witness:
  "4 \<le> length (ex_game_start 2)
   \<and> version_lt (unat (ex_game_start 2 ! 1), unat (ex_game_start 2 ! 2), unat (ex_game_start 2 ! 3)) (3, 0, 0)
   \<and> \<not> self_allow_old_version ex_console
   \<and> EventType_of example_tables (unat (ex_game_start 2 ! 0)) = Some GAME_START
   \<and> eventsize ex_console (ex_game_start 2 ! 0) \<le> length (ex_game_start 2)
   \<and> map_option fst (handle_slippstream_events example_tables (ex_game_start 2) 1 ex_console)
       = Some (Inl (SlippiVersionTooLow 2 0 0))
   \<and> \<not> self_use_manual_bookends (snd (game_start example_tables 1 (ex_game_start 2) ex_console))"
proof -
  have len: "4 \<le> length (ex_game_start 2)"
    by (simp add: ex_game_start_def)
  show ?thesis
    using game_start_version_gate[OF len, of ex_console example_tables 1] len
    by (simp add: ex_game_start_def example_tables_sel example_EventType_of_def
        ex_console_def Console_init_def version_lt_def nth_append)
qed

subsection \<open>The dispatcher: a record cut short\<close>

text \<open>
  Claim C2, as amended. When the bytes at the cursor are fewer than the declared length
  of the record that starts there, the dispatcher stops without error and reports that
  no frame is complete; the console is left as it was at the cursor, so the unconsumed
  remainder is not kept: an empty delivery has the same effect, and the next delivery is
  decoded from its own first byte.
\<close>

theorem truncated_record_not_retained:
  assumes "event_bytes \<noteq> []"
      and "length event_bytes < eventsize c (event_bytes ! 0)"
  shows "events_loop T g event_bytes c = Some (Inr False, c)
       \<and> handle_slippstream_events T event_bytes g c = handle_slippstream_events T [] g c"
proof -
  obtain b rest where bs: "event_bytes = b # rest"
    using assms(1) by (cases event_bytes) auto
  have "events_loop T g event_bytes c' = Some (Inr False, c')"
    if "length event_bytes < eventsize c' (event_bytes ! 0)" for c'
    using that by (simp add: bs events_loop_Cons dispatch_event_def M_run)
  with assms(2) show ?thesis
    by (simp add: handle_slippstream_events_def set_gamestate_run modifyM_run events_loop_Nil)
qed

text \<open>The first four bytes of a frame bookend of nine.\<close>

theorem truncated_record_not_retained_witness:
  "take 4 (ex_bookend 5) \<noteq> []
   \<and> length (take 4 (ex_bookend 5)) < eventsize ex_console (take 4 (ex_bookend 5) ! 0)
   \<and> events_loop example_tables 1 (take 4 (ex_bookend 5)) ex_console = Some (Inr False, ex_console)"
proof -
  have ne: "take 4 (ex_bookend 5) \<noteq> []"
    by (simp add: ex_bookend_def)
  have short: "length (take 4 (ex_bookend 5)) < eventsize ex_console (take 4 (ex_bookend 5) ! 0)"
    by (simp add: ex_bookend_def ex_console_def Console_init_def)
  show ?thesis
    using truncated_record_not_retained[OF ne short, of example_tables 1] ne short
    by simp
qed

text \<open>
  The claim as it is written has the remainder carried forward. A frame bookend split
  over two deliveries is lost: the second delivery is decoded from its first byte, which
  is no command, and raises. The same bytes in one delivery complete frame 5.
\<close>

theorem remainder_carried_forward_counterexample:
  "map_option fst
     (host example_tables (Suc 0)
        [Game_event (ex_post_frame 5 0x0E [0, 0, 0, 0] [0, 0, 0, 0] [0, 0, 0, 0] 0
                       @ take 4 (ex_bookend 5)),
         Game_event (drop 4 (ex_bookend 5))]
        ex_console)
     = Some (Inl ValueError)
   \<and> map_option (\<lambda>r. (fst r, map frame (fst (snd r))))
       (host example_tables (Suc 0)
          [Game_event (ex_post_frame 5 0x0E [0, 0, 0, 0] [0, 0, 0, 0] [0, 0, 0, 0] 0
                         @ ex_bookend 5)]
          ex_console)
     = Some (Inr (), [5])"
  by (simp add: eval_defs cong: weak_congs)

subsection \<open>The dispatcher: a command without a registered length\<close>

text \<open>
  Claim C3, as amended. For every byte that is not the value of a member of the
  event-type enumeration and has no registered length, dispatching a record that begins
  with it raises \<open>ValueError\<close>: the decoding of the delivery is abandoned, the record is
  not skipped, and \<open>step\<close> hands the exception to its caller.
\<close>

theorem unknown_command_is_fatal:
  assumes "EventType_of T (unat b) = None"
      and "eventsize c b = 0"
  shows "handle_slippstream_events T (b # rest) g c
           = Some (Inl ValueError, upd_gamestate g (\<lambda>s. s\<lparr>menu_state := IN_GAME\<rparr>) c)
       \<and> map_option (\<lambda>r. (fst r, fst (snd r))) (step T (Game_event (b # rest) # msgs) c)
           = Some (Inl ValueError, msgs)"
proof -
  have h: "handle_slippstream_events T (b # rest) g' c'
           = Some (Inl ValueError, upd_gamestate g' (\<lambda>s. s\<lparr>menu_state := IN_GAME\<rparr>) c')"
    if "eventsize c' b = 0" for g' c'
    using that assms(1)
    by (simp add: handle_slippstream_events_def set_gamestate_run modifyM_run
        events_loop_Cons dispatch_event_def M_run)
  show ?thesis
    using assms(2) by (simp add: h step_def Let_def split: option.split)
qed

text \<open>The byte 5 is no command of the replay format.\<close>

theorem unknown_command_is_fatal_witness:
  "EventType_of example_tables (unat (5 :: byte)) = None
   \<and> eventsize ex_console 5 = 0
   \<and> map_option fst (handle_slippstream_events example_tables [5, 0, 0] 1 ex_console)
       = Some (Inl ValueError)"
proof -
  have none: "EventType_of example_tables (unat (5 :: byte)) = None"
    by (simp add: example_tables_sel example_EventType_of_def)
  have zero: "eventsize ex_console 5 = 0"
    by (simp add: ex_console_def Console_init_def)
  show ?thesis
    using unknown_command_is_fatal[OF none zero, of "[0, 0]" 1 "[]"] none zero
    by simp
qed

text \<open>
  The claim as it is written makes every command without a registered length fatal.
  Nothing in the dispatcher asks whether a length was registered: the table starts with
  0 everywhere. On a fresh console a session end and a frame bookend are dispatched and
  return without error, and \<open>step\<close> returns to its caller without an exception.
\<close>

theorem unregistered_length_counterexample:
  "eventsize (Console_init example_tables False) 0x39 = 0
   \<and> map_option fst
       (handle_slippstream_events example_tables [0x39] 1 (Console_init example_tables False))
     = Some (Inr False)
   \<and> eventsize (Console_init example_tables False) 0x3C = 0
   \<and> map_option fst
       (handle_slippstream_events example_tables [0x3C] 1 (Console_init example_tables False))
     = Some (Inr False)
   \<and> map_option (\<lambda>r. (fst r, fst (snd r)))
       (step example_tables [Game_event [0x3C]] (Console_init example_tables False))
     = Some (Inr None, [])"
  by (simp add: eval_defs cong: weak_congs)

text \<open>
  The amended claim says nothing of the members of the enumeration whose record the
  dispatcher only steps over. Without a registered length such a record is stepped over
  by 0 bytes, and the loop of the dispatcher does not return.
\<close>

lemma unregistered_record_not_consumed:
  assumes ev: "EventType_of T (unat b) = Some FRAME_START
               \<or> EventType_of T (unat b) = Some GECKO_CODES"
      and sz: "eventsize c b = 0"
  shows "events_loop T g (b # rest) c = None"
proof (cases "events_loop T g (b # rest) c")
  case None
  then show ?thesis .
next
  case (Some y)
  have "events_loop T' g' bs' c' = Some y' \<Longrightarrow>
          \<not> (T' = T \<and> g' = g \<and> bs' = b # rest \<and> c' = c)" for T' g' bs' c' y'
  proof (induction rule: events_loop.raw_induct[rotated 1, consumes 1])
    case (1 loop T' g' bs' c' y')
    show ?case
    proof
      assume eq: "T' = T \<and> g' = g \<and> bs' = b # rest \<and> c' = c"
      with ev sz have "dispatch_event T' g' bs' c' = (Inr (Continue bs'), c')"
        by (auto simp: dispatch_event_def M_run)
      with 1(2) eq have "loop T' g' bs' c' = Some y'"
        by simp
      from 1(1)[OF this] eq show False
        by simp
    qed
  qed
  from this[OF Some] show ?thesis
    by simp
qed

subsection \<open>Frame delivery in increasing order\<close>

text \<open>
  Claim C4, as amended. Outside legacy-bookend mode, for every run of one decoder session
  (gameplay deliveries among which the dispatcher dispatches no session-start record), the
  frame indices of the snapshots handed to the caller are strictly increasing, and each
  is strictly greater than the index last delivered before the run; so a finalized frame
  whose index is not strictly greater than the last delivered index is not emitted.
\<close>

theorem emitted_frames_strictly_increasing:
  assumes "host T n msgs c = Some (r, snapshots, c')"
      and "\<not> self_use_manual_bookends c"
      and "\<not> session_start_in_host T n msgs c"
      and "gameplay msgs"
  shows "sorted_wrt (<) (map frame snapshots) \<and> (\<forall>s \<in> set snapshots. self_frame c < frame s)"
  using assms
proof (induction n arbitrary: msgs c r snapshots c')
  case 0
  then show ?case by simp
next
  case (Suc n)
  from Suc.prems(3) have ns: "\<not> session_start_in_step T msgs c"
    by simp
  show ?case
  proof (cases "step T msgs c")
    case None
    with Suc.prems(1) show ?thesis by simp
  next
    case (Some y)
    obtain r1 rest c1 where y: "y = (r1, rest, c1)" by (cases y)
    note d = step_delivery[OF Some[unfolded y] Suc.prems(2) ns Suc.prems(4)]
    show ?thesis
    proof (cases r1)
      case (Inl e)
      with Suc.prems(1) Some y show ?thesis by simp
    next
      case (Inr res)
      from Suc.prems(3) Some y Inr have ns1: "\<not> session_start_in_host T n rest c1"
        by simp
      show ?thesis
      proof (cases res)
        case None
        with Suc.prems(1) Some y Inr have rec: "host T n rest c1 = Some (r, snapshots, c')"
          by simp
        from d Inr None have "\<not> self_use_manual_bookends c1" "gameplay rest"
          "self_frame c1 = self_frame c" by auto
        with Suc.IH[OF rec _ ns1] show ?thesis by auto
      next
        case (Some g)
        with Suc.prems(1) \<open>step T msgs c = Some y\<close> y Inr
        obtain snaps where rec: "host T n rest c1 = Some (r, snaps, c')"
          and sn: "snapshots = heap c1 g # snaps"
          by (auto split: option.splits)
        from d Inr Some have nm1: "\<not> self_use_manual_bookends c1" and gp1: "gameplay rest"
          and lt: "self_frame c < frame (heap c1 g)" and eq: "self_frame c1 = frame (heap c1 g)"
          by auto
        from Suc.IH[OF rec nm1 ns1 gp1] eq lt sn show ?thesis by auto
      qed
    qed
  qed
qed

text \<open>Frames 54, 53 and 55 in turn: the second is dropped. The index 54 is the byte of
  the session-start command, which the cursor never stops at here.\<close>

theorem emitted_frames_strictly_increasing_witness:
  "\<not> self_use_manual_bookends ex_console
   \<and> \<not> session_start_in_host example_tables (Suc (Suc 0))
        [Game_event (ex_post_frame 54 0x0E [0, 0, 0, 0] [0, 0, 0, 0] [0, 0, 0, 0] 0 @ ex_bookend 54),
         Game_event (ex_post_frame 53 0x0E [0, 0, 0, 0] [0, 0, 0, 0] [0, 0, 0, 0] 0 @ ex_bookend 53),
         Game_event (ex_post_frame 55 0x0E [0, 0, 0, 0] [0, 0, 0, 0] [0, 0, 0, 0] 0 @ ex_bookend 55)]
        ex_console
   \<and> gameplay
        [Game_event (ex_post_frame 54 0x0E [0, 0, 0, 0] [0, 0, 0, 0] [0, 0, 0, 0] 0 @ ex_bookend 54),
         Game_event (ex_post_frame 53 0x0E [0, 0, 0, 0] [0, 0, 0, 0] [0, 0, 0, 0] 0 @ ex_bookend 53),
         Game_event (ex_post_frame 55 0x0E [0, 0, 0, 0] [0, 0, 0, 0] [0, 0, 0, 0] 0 @ ex_bookend 55)]
   \<and> (\<exists>r snapshots c'.
         host example_tables (Suc (Suc 0))
           [Game_event (ex_post_frame 54 0x0E [0, 0, 0, 0] [0, 0, 0, 0] [0, 0, 0, 0] 0 @ ex_bookend 54),
            Game_event (ex_post_frame 53 0x0E [0, 0, 0, 0] [0, 0, 0, 0] [0, 0, 0, 0] 0 @ ex_bookend 53),
            Game_event (ex_post_frame 55 0x0E [0, 0, 0, 0] [0, 0, 0, 0] [0, 0, 0, 0] 0 @ ex_bookend 55)]
           ex_console = Some (r, snapshots, c')
         \<and> map frame snapshots = [54, 55]
         \<and> sorted_wrt (<) (map frame snapshots)
         \<and> (\<forall>s \<in> set snapshots. self_frame ex_console < frame s))"
proof -
  define msgs where "msgs =
        [Game_event (ex_post_frame 54 0x0E [0, 0, 0, 0] [0, 0, 0, 0] [0, 0, 0, 0] 0 @ ex_bookend 54),
         Game_event (ex_post_frame 53 0x0E [0, 0, 0, 0] [0, 0, 0, 0] [0, 0, 0, 0] 0 @ ex_bookend 53),
         Game_event (ex_post_frame 55 0x0E [0, 0, 0, 0] [0, 0, 0, 0] [0, 0, 0, 0] 0 @ ex_bookend 55)]"
  have nm: "\<not> self_use_manual_bookends ex_console"
    by (simp add: ex_console_def Console_init_def)
  have ns: "\<not> session_start_in_host example_tables (Suc (Suc 0)) msgs ex_console"
    unfolding msgs_def by (simp add: eval_defs session_defs cong: weak_congs)
  have gp: "gameplay msgs"
    by (simp add: msgs_def gameplay_def)
  have "map_option (map frame \<circ> fst \<circ> snd) (host example_tables (Suc (Suc 0)) msgs ex_console)
          = Some [54, 55]"
    unfolding msgs_def by (simp add: eval_defs cong: weak_congs)
  then obtain r snapshots c' where
    run: "host example_tables (Suc (Suc 0)) msgs ex_console = Some (r, snapshots, c')"
    and fr: "map frame snapshots = [54, 55]"
    by (cases "host example_tables (Suc (Suc 0)) msgs ex_console") auto
  note res = emitted_frames_strictly_increasing[OF run nm ns gp]
  have "\<exists>r snapshots c'.
         host example_tables (Suc (Suc 0)) msgs ex_console = Some (r, snapshots, c')
         \<and> map frame snapshots = [54, 55]
         \<and> sorted_wrt (<) (map frame snapshots)
         \<and> (\<forall>s \<in> set snapshots. self_frame ex_console < frame s)"
  proof (intro exI conjI)
    show "host example_tables (Suc (Suc 0)) msgs ex_console = Some (r, snapshots, c')"
      by (rule run)
    show "map frame snapshots = [54, 55]"
      by (rule fr)
    show "sorted_wrt (<) (map frame snapshots)"
      using res by (rule conjunct1)
    show "\<forall>s \<in> set snapshots. self_frame ex_console < frame s"
      using res by (rule conjunct2)
  qed
  with nm ns gp show ?thesis
    unfolding msgs_def by (intro conjI)
qed

text \<open>
  The claim as it is written holds for every session. In legacy-bookend mode a frame is
  complete at the transport's frame-end message, and the index is not looked at: in the
  session that the record of version 2.0.0 starts, with the caller's opt-in, frame 10 and
  then frame 9 are handed to the caller.
\<close>

theorem legacy_frames_not_increasing_counterexample:
  "map_option (\<lambda>r. (fst r, map frame (fst (snd r)), self_use_manual_bookends (snd (snd r))))
     (host example_tables (Suc (Suc 0))
        [Game_event (ex_game_start 2),
         Game_event (ex_post_frame 10 0x0E [0, 0, 0, 0] [0, 0, 0, 0] [0, 0, 0, 0] 0),
         Frame_end,
         Game_event (ex_post_frame 9 0x0E [0, 0, 0, 0] [0, 0, 0, 0] [0, 0, 0, 0] 0),
         Frame_end]
        (ex_console\<lparr>self_allow_old_version := True\<rparr>))
     = Some (Inr (), [10, 9], True)
   \<and> \<not> (9 :: int) > 10"
  by (simp add: eval_defs cong: weak_congs)

subsection \<open>Frame bookend: the previous snapshot\<close>

text \<open>
  What holds of every frame-bookend record: it stores the snapshot it finalizes as the
  previous snapshot before the index check, whether or not the frame is then emitted (it
  is emitted exactly when its index exceeds the last delivered one), and the
  invulnerability countdown of the post-frame update after a discarded frame continues
  from the value of the discarded frame.
\<close>

lemma frame_bookend_stores_snapshot:
  assumes ev: "EventType_of T (unat b) = Some FRAME_BOOKEND"
      and sz: "eventsize c b \<le> length (b # rest)"
  shows "\<exists>c'. handle_slippstream_events T (b # rest) g c
                 = Some (Inr (self_frame c < frame (heap c g)), c')
            \<and> self_prev_gamestate c' = g
            \<and> (\<forall>port. prev_player port c' = player_at c g port)
            \<and> (\<forall>bs chr ps0.
                  frame (heap c g) \<le> self_frame c \<and> 0x26 \<le> length bs
                  \<and> Character_of T (unat (bs ! 7)) = Some chr
                  \<and> player_at c g (scalar_add1 T 8 (unat (bs ! 5))) = Some ps0
                \<longrightarrow> (\<exists>ps. player_at (snd (post_frame T g bs c')) g
                             (scalar_add1 T 8 (unat (bs ! 5))) = Some ps
                        \<and> invulnerability_left ps =
                            (if action ps = EDGE_CATCHING \<and> action_frame ps = 1 then 36
                             else if action ps = ON_HALO_DESCENT
                                     \<and> frame (heap (snd (post_frame T g bs c')) g) > 150 then 120
                             else if action ps = ON_HALO_WAIT then 120
                             else max 0 (invulnerability_left ps0 - 1))))"
proof -
  define c1 where "c1 = upd_gamestate g (\<lambda>s. s\<lparr>distance := bookend_distance (player s)\<rparr>)
      ((upd_gamestate g (\<lambda>s. s\<lparr>menu_state := IN_GAME\<rparr>) c)\<lparr>self_prev_gamestate := g\<rparr>)"
  define c' where "c' = (if frame (heap c g) \<le> self_frame c then c1
                         else c1\<lparr>self_frame := frame (heap c g)\<rparr>)"
  have run: "handle_slippstream_events T (b # rest) g c
                 = Some (Inr (self_frame c < frame (heap c g)), c')"
    using ev sz
    by (auto simp: handle_slippstream_events_def set_gamestate_run modifyM_run
        events_loop_Cons dispatch_event_def M_run frame_bookend_run c'_def c1_def)
  have prev: "self_prev_gamestate c' = g"
    by (simp add: c'_def c1_def)
  have pl: "player_at c' g port = player_at c g port" for port
    by (simp add: c'_def c1_def player_at_def)
  have look: "prev_player port c' = player_at c g port" for port
    by (simp add: prev_player_eq prev pl)
  have next_frame:
    "\<exists>ps. player_at (snd (post_frame T g bs c')) g (scalar_add1 T 8 (unat (bs ! 5))) = Some ps
          \<and> invulnerability_left ps =
              (if action ps = EDGE_CATCHING \<and> action_frame ps = 1 then 36
               else if action ps = ON_HALO_DESCENT
                       \<and> frame (heap (snd (post_frame T g bs c')) g) > 150 then 120
               else if action ps = ON_HALO_WAIT then 120
               else max 0 (invulnerability_left ps0 - 1))"
    if len: "0x26 \<le> length bs" and ch: "Character_of T (unat (bs ! 7)) = Some chr"
      and ps0: "player_at c g (scalar_add1 T 8 (unat (bs ! 5))) = Some ps0"
    for bs chr ps0
    using post_frame_effect[OF len ch refl refl refl refl, of g c'] prev
      pl[of "scalar_add1 T 8 (unat (bs ! 5))"] ps0
    by (simp add: fields_keep_invulnerability_left)
  show ?thesis
    using run prev look next_frame by blast
qed

text \<open>
  Claim C9 has the discarded frame looked back at by the moonwalk-warning derivation of
  the next frame as well. Frame 10 is emitted with the player standing. Frame 9 arrives
  late, with the player catching the ledge (countdown 36), and is discarded: it is the
  previous snapshot now, and still the snapshot under construction. Frame 11 has the
  player dashing. Its countdown is 35, one less than that of the discarded frame; but no
  warning is raised, although the action of the discarded frame is neither the dash nor
  the turn: the derivation reads the action of the previous snapshot after the update
  has written the current action into the same object. When the ledge catch is frame 11,
  and emitted, the dash of frame 12 is flagged.
\<close>

theorem discarded_frame_moonwalk_lookback:
  "map_option
     (map (\<lambda>s. (frame s,
                map_option (\<lambda>ps. (action ps, invulnerability_left ps, moonwalkwarning ps))
                  (map_of (player s) 1)))
        \<circ> fst \<circ> snd)
     (host example_tables (Suc (Suc 0))
        [Game_event (ex_post_frame 10 0x0E [0, 0, 0, 0] [0, 0, 0, 0] [0, 0, 0, 0] 0 @ ex_bookend 10),
         Game_event (ex_post_frame 9 0xFC [0, 0, 0, 0] [0, 0, 0, 0] [0x3F, 0x80, 0, 0] 0 @ ex_bookend 9),
         Game_event (ex_post_frame 11 0x14 [0, 0, 0, 0] [0, 0, 0, 0] [0, 0, 0, 0] 0 @ ex_bookend 11)]
        ex_console)
     = Some [(10, Some (Action_member 14, 0, False)), (11, Some (DASHING, 35, False))]
   \<and> map_option
     (map (\<lambda>s. (frame s,
                map_option (\<lambda>ps. (action ps, invulnerability_left ps, moonwalkwarning ps))
                  (map_of (player s) 1)))
        \<circ> fst \<circ> snd)
     (host example_tables (Suc (Suc (Suc 0)))
        [Game_event (ex_post_frame 10 0x0E [0, 0, 0, 0] [0, 0, 0, 0] [0, 0, 0, 0] 0 @ ex_bookend 10),
         Game_event (ex_post_frame 11 0xFC [0, 0, 0, 0] [0, 0, 0, 0] [0x3F, 0x80, 0, 0] 0 @ ex_bookend 11),
         Game_event (ex_post_frame 12 0x14 [0, 0, 0, 0] [0, 0, 0, 0] [0, 0, 0, 0] 0 @ ex_bookend 12)]
        ex_console)
     = Some [(10, Some (Action_member 14, 0, False)), (11, Some (EDGE_CATCHING, 36, False)),
             (12, Some (DASHING, 35, True))]"
  by (simp add: eval_defs cong: weak_congs)

subsection \<open>Post-frame update: the moonwalk warning\<close>

text \<open>
  What the decoder does for the moonwalk warning of every post-frame update that
  decodes: the flag is false whenever the action is not the dash, and it is raised for
  a dashing player whose previous snapshot, an object other than the snapshot under
  construction, holds the port with an action that is neither the dash nor the turn.
\<close>

lemma post_frame_moonwalkwarning_flag:
  assumes len: "0x26 \<le> length event_bytes"
      and ch: "Character_of T (unat (event_bytes ! 7)) = Some chr"
  shows "\<exists>ps. player_at (snd (post_frame T g event_bytes c)) g (scalar_add1 T 8 (unat (event_bytes ! 5))) = Some ps
              \<and> (action ps \<noteq> DASHING \<longrightarrow> \<not> moonwalkwarning ps)
              \<and> (\<forall>pp. self_prev_gamestate c \<noteq> g
                       \<and> prev_player (scalar_add1 T 8 (unat (event_bytes ! 5))) c = Some pp
                       \<and> action ps = DASHING \<and> action pp \<noteq> DASHING \<and> action pp \<noteq> TURNING
                    \<longrightarrow> moonwalkwarning ps)"
  using post_frame_effect[OF len ch refl refl refl refl, of g c]
  by simp

text \<open>
  Claim C7 asks for the flag in every finalized frame. It fails in the frame that follows
  a discarded one. Frame 10 is emitted with the player standing; frame 9 arrives again
  and is discarded, which leaves it as the previous snapshot and as the snapshot under
  construction at once; frame 11 has the player dashing, after standing, and is emitted
  without the warning. Without the discarded frame, frame 11 carries the warning.
\<close>

theorem moonwalkwarning_after_discarded_frame:
  "map_option
     (map (\<lambda>s. (frame s, map_option (\<lambda>ps. (action ps, moonwalkwarning ps)) (map_of (player s) 1)))
        \<circ> fst \<circ> snd)
     (host example_tables (Suc (Suc 0))
        [Game_event (ex_post_frame 10 0x0E [0, 0, 0, 0] [0, 0, 0, 0] [0, 0, 0, 0] 0 @ ex_bookend 10),
         Game_event (ex_post_frame 9 0x0E [0, 0, 0, 0] [0, 0, 0, 0] [0, 0, 0, 0] 0 @ ex_bookend 9),
         Game_event (ex_post_frame 11 0x14 [0, 0, 0, 0] [0, 0, 0, 0] [0, 0, 0, 0] 0 @ ex_bookend 11)]
        ex_console)
     = Some [(10, Some (Action_member 14, False)), (11, Some (DASHING, False))]
   \<and> map_option
     (map (\<lambda>s. (frame s, map_option (\<lambda>ps. (action ps, moonwalkwarning ps)) (map_of (player s) 1)))
        \<circ> fst \<circ> snd)
     (host example_tables (Suc (Suc 0))
        [Game_event (ex_post_frame 10 0x0E [0, 0, 0, 0] [0, 0, 0, 0] [0, 0, 0, 0] 0 @ ex_bookend 10),
         Game_event (ex_post_frame 11 0x14 [0, 0, 0, 0] [0, 0, 0, 0] [0, 0, 0, 0] 0 @ ex_bookend 11)]
        ex_console)
     = Some [(10, Some (Action_member 14, False)), (11, Some (DASHING, True))]"
  by (simp add: eval_defs cong: weak_congs)

end
